theory Spec2Isabelle
  imports Main "HOL-Library.Word"
begin

section \<open>Go strings\<close>

text \<open>
  A Go string is a sequence of bytes, here a \<open>string\<close> (a list of 8-bit characters).
  The functions of package \<open>strings\<close> that the client calls are written out below,
  under their Go names.
\<close>

fun hasPrefix :: "string \<Rightarrow> string \<Rightarrow> bool" where
  "hasPrefix s [] = True"
| "hasPrefix [] (p # ps) = False"
| "hasPrefix (c # cs) (p # ps) = (c = p \<and> hasPrefix cs ps)"

definition hasSuffix :: "string \<Rightarrow> string \<Rightarrow> bool" where
  "hasSuffix s suf = hasPrefix (rev s) (rev suf)"

definition trimPrefix :: "string \<Rightarrow> string \<Rightarrow> string" where
  "trimPrefix s p = (if hasPrefix s p then drop (length p) s else s)"

definition trimSuffix :: "string \<Rightarrow> string \<Rightarrow> string" where
  "trimSuffix s suf = (if hasSuffix s suf then take (length s - length suf) s else s)"

fun contains :: "string \<Rightarrow> string \<Rightarrow> bool" where
  "contains [] sub = (sub = [])"
| "contains (c # cs) sub = (hasPrefix (c # cs) sub \<or> contains cs sub)"

text \<open>\<open>strings.Split(s, sep)\<close> for a separator of one byte: never the empty list.\<close>

fun split :: "string \<Rightarrow> char \<Rightarrow> string list" where
  "split [] sep = [[]]"
| "split (c # cs) sep =
     (if c = sep then [] # split cs sep
      else (case split cs sep of w # ws \<Rightarrow> (c # w) # ws | [] \<Rightarrow> [[c]]))"

text \<open>
  \<open>strings.TrimSpace\<close> takes the white space of Unicode off both ends of the string. In the
  UTF-8 bytes of a Go string, the white space characters are the encodings below: tab, line
  feed, vertical tab, form feed, carriage return and space, each one byte, then U+0085,
  U+00A0, U+1680, U+2000 to U+200A, U+2028, U+2029, U+202F, U+205F and U+3000.
\<close>

definition spaceRunes :: "string list" where
  "spaceRunes =
     [[CHR 0x09], [CHR 0x0A], [CHR 0x0B], [CHR 0x0C], [CHR 0x0D], [CHR 0x20],
      [CHR 0xC2, CHR 0x85], [CHR 0xC2, CHR 0xA0], [CHR 0xE1, CHR 0x9A, CHR 0x80],
      [CHR 0xE2, CHR 0x80, CHR 0x80], [CHR 0xE2, CHR 0x80, CHR 0x81],
      [CHR 0xE2, CHR 0x80, CHR 0x82], [CHR 0xE2, CHR 0x80, CHR 0x83],
      [CHR 0xE2, CHR 0x80, CHR 0x84], [CHR 0xE2, CHR 0x80, CHR 0x85],
      [CHR 0xE2, CHR 0x80, CHR 0x86], [CHR 0xE2, CHR 0x80, CHR 0x87],
      [CHR 0xE2, CHR 0x80, CHR 0x88], [CHR 0xE2, CHR 0x80, CHR 0x89],
      [CHR 0xE2, CHR 0x80, CHR 0x8A], [CHR 0xE2, CHR 0x80, CHR 0xA8],
      [CHR 0xE2, CHR 0x80, CHR 0xA9], [CHR 0xE2, CHR 0x80, CHR 0xAF],
      [CHR 0xE2, CHR 0x81, CHR 0x9F], [CHR 0xE3, CHR 0x80, CHR 0x80]]"

text \<open>
  The number of bytes of the character of the table that the string begins with, 0 when it
  begins with none of them.
\<close>

fun spaceLen :: "string list \<Rightarrow> string \<Rightarrow> nat" where
  "spaceLen [] s = 0"
| "spaceLen (r # rs) s = (if hasPrefix s r then length r else spaceLen rs s)"

text \<open>
  \<open>trimLeftRunes tab s\<close> takes the characters of the table off the front of \<open>s\<close> as long
  as there is one. Any other byte ends it: a byte that begins no white space character, also
  one of a sequence that is not valid UTF-8, is decoded to a character that is no white
  space.
\<close>

function trimLeftRunes :: "string list \<Rightarrow> string \<Rightarrow> string" where
  "trimLeftRunes tab s =
     (if s \<noteq> [] \<and> 0 < spaceLen tab s then trimLeftRunes tab (drop (spaceLen tab s) s)
      else s)"
  by pat_completeness auto
termination
  by (relation "measure (\<lambda>(tab, s). length s)") auto

declare trimLeftRunes.simps [simp del]

text \<open>
  At the end of the string the last character is decoded backwards, from the nearest byte
  that can begin a character; a white space character is found there exactly when its bytes
  end the string, which is read here on the reversed string, with the table reversed.
\<close>

definition trimSpace :: "string \<Rightarrow> string" where
  "trimSpace s = rev (trimLeftRunes (map rev spaceRunes) (rev (trimLeftRunes spaceRunes s)))"

definition isDigit :: "char \<Rightarrow> bool" where
  "isDigit c = (c \<in> set ''0123456789'')"

definition isAlpha :: "char \<Rightarrow> bool" where
  "isAlpha c = (c \<in> set ''abcdefghijklmnopqrstuvwxyzABCDEFGHIJKLMNOPQRSTUVWXYZ'')"

section \<open>Errors\<close>

text \<open>
  One constructor for each place where the client makes an error value, with the arguments
  of its message; \<open>IndexOutOfRange\<close> is the run-time panic of a slice read past the end.
\<close>

datatype error =
    ErrNotFound
  | ErrParsingQuantity string string
  | ErrUnknownQuantity string string
  | ErrParsingDate string
  | ErrMakingReq string string
  | ErrIsPackageFalse string
  | ErrParsingPublished string error
  | ErrFetching string string
  | ErrVisitingPage nat string
  | ErrAtoi string
  | ErrTransport string
  | IndexOutOfRange

section \<open>Dates and times\<close>

subsection \<open>The values of package time\<close>

text \<open>
  A \<open>time.Time\<close>, as far as the client reads it: the calendar date and the nanoseconds
  since midnight that the value shows in its own location. The years are those of the
  proleptic Gregorian calendar, as in Go, and are not bounded here.
\<close>

record Time =
  year :: int
  month :: nat
  day :: nat
  nsec :: int

definition isLeap :: "int \<Rightarrow> bool" where
  "isLeap y = (y mod 4 = 0 \<and> (y mod 100 \<noteq> 0 \<or> y mod 400 = 0))"

definition daysIn :: "nat \<Rightarrow> int \<Rightarrow> nat" where
  "daysIn m y =
     (if m = 2 then (if isLeap y then 29 else 28)
      else if m = 4 \<or> m = 6 \<or> m = 9 \<or> m = 11 then 30
      else 31)"

definition nsPerDay :: int where
  "nsPerDay = 86400000000000"

definition Hour :: int where
  "Hour = 3600000000000"

definition validTime :: "Time \<Rightarrow> bool" where
  "validTime t =
     (1 \<le> month t \<and> month t \<le> 12 \<and> 1 \<le> day t \<and> day t \<le> daysIn (month t) (year t)
      \<and> 0 \<le> nsec t \<and> nsec t < nsPerDay)"

text \<open>
  The arithmetic of package \<open>time\<close> is outside the program, like the clock: what \<open>Add\<close> and
  \<open>AddDate\<close> return depends on the location of the clock (an hour is elapsed time, a day is a
  day of the calendar, and local time has jumps) and on the 64-bit counters of the library.
  So the value that \<open>time.Now()\<close> returns comes with what its two methods return: \<open>wall now\<close>
  is what \<open>now\<close> shows, \<open>Add now d\<close> is what \<open>now.Add(d)\<close> shows, for a duration of \<open>d\<close>
  nanoseconds, and \<open>AddDate now k\<close> is what \<open>now.AddDate(0, 0, k)\<close> shows.
\<close>

record Instant =
  wall :: Time
  Add :: "int \<Rightarrow> Time"
  AddDate :: "int \<Rightarrow> Time"

subsection \<open>Format with the layout 2006-01-02\<close>

fun digits :: "nat \<Rightarrow> string" where
  "digits n =
     (if n < 10 then [''0123456789'' ! n]
      else digits (n div 10) @ [''0123456789'' ! (n mod 10)])"

declare digits.simps [simp del]

definition appendInt :: "int \<Rightarrow> nat \<Rightarrow> string" where
  "appendInt x width =
     (if x < 0 then ''-'' else []) @
     replicate (width - length (digits (nat \<bar>x\<bar>))) (CHR ''0'') @ digits (nat \<bar>x\<bar>)"

definition Format :: "Time \<Rightarrow> string" where
  "Format t = appendInt (year t) 4 @ ''-'' @ appendInt (int (month t)) 2 @ ''-''
              @ appendInt (int (day t)) 2"

text \<open>
  The bytes that \<open>Format\<close> writes, and the shape \<^verbatim>\<open>YYYY-MM-DD\<close>: ten bytes, digits but for
  the two hyphens.
\<close>

definition dateByte :: "char \<Rightarrow> bool" where
  "dateByte c = (isDigit c \<or> c = CHR ''-'')"


subsection \<open>Parse with the layout Jan 2, 2006\<close>

definition shortMonthNames :: "string list" where
  "shortMonthNames = [''Jan'', ''Feb'', ''Mar'', ''Apr'', ''May'', ''Jun'',
                      ''Jul'', ''Aug'', ''Sep'', ''Oct'', ''Nov'', ''Dec'']"

definition lowerOf :: "char \<Rightarrow> char" where
  "lowerOf c =
     (case map_of (zip ''ABCDEFGHIJKLMNOPQRSTUVWXYZ'' ''abcdefghijklmnopqrstuvwxyz'') c of
        Some l \<Rightarrow> l
      | None \<Rightarrow> c)"

text \<open>
  The comparison of \<open>lookup\<close>: two bytes match when they are equal, or are letters that
  differ in case only.
\<close>

definition matchByte :: "char \<Rightarrow> char \<Rightarrow> bool" where
  "matchByte c1 c2 = (c1 = c2 \<or> (isAlpha c1 \<and> isAlpha c2 \<and> lowerOf c1 = lowerOf c2))"

fun lookup :: "string list \<Rightarrow> nat \<Rightarrow> string \<Rightarrow> (nat \<times> string) option" where
  "lookup [] i val = None"
| "lookup (v # tab) i val =
     (if length v \<le> length val \<and> list_all2 matchByte (take (length v) val) v
      then Some (i, drop (length v) val)
      else lookup tab (Suc i) val)"

definition cutspace :: "string \<Rightarrow> string" where
  "cutspace s = dropWhile (\<lambda>c. c = CHR '' '') s"

text \<open>
  \<open>skip\<close> takes the literal text of the layout off the input; a space of the layout stands
  for any number of spaces, also none, at the end of the input or before more spaces.
\<close>

function skip :: "string \<Rightarrow> string \<Rightarrow> string option" where
  "skip val [] = Some val"
| "skip val (p # ps) =
     (if p = CHR '' '' then
        (if val \<noteq> [] \<and> hd val \<noteq> CHR '' '' then None
         else skip (cutspace val) (cutspace (p # ps)))
      else (case val of
              [] \<Rightarrow> None
            | v # vs \<Rightarrow> if v = p then skip vs ps else None))"
  by pat_completeness auto
termination
  apply (relation "measure (\<lambda>(val, pre). length pre)")
    apply simp
   apply (simp add: cutspace_def)
   apply (rule le_imp_less_Suc)
   apply (rule length_dropWhile_le)
  apply simp
  done

definition digitVal :: "char \<Rightarrow> nat" where
  "digitVal c = of_char c - 48"

definition decimal :: "string \<Rightarrow> nat" where
  "decimal ds = foldl (\<lambda>a c. 10 * a + digitVal c) 0 ds"

text \<open>\<open>getnum(s, false)\<close>: one digit, or two when a second one follows.\<close>

definition getnum :: "string \<Rightarrow> (nat \<times> string) option" where
  "getnum s =
     (case s of
        [] \<Rightarrow> None
      | c # r \<Rightarrow>
          if \<not> isDigit c then None
          else (case r of
                  [] \<Rightarrow> Some (digitVal c, r)
                | d # r' \<Rightarrow>
                    if isDigit d then Some (digitVal c * 10 + digitVal d, r')
                    else Some (digitVal c, r)))"

text \<open>
  \<open>time.Parse("Jan 2, 2006", s)\<close>: the month by its three letters, the literal space, a
  day of one or two digits, the literal comma and space, a year of four digits, and nothing
  after it; then the day is checked against the month. The result is midnight of that day.
\<close>

definition Parse :: "string \<Rightarrow> Time option" where
  "Parse s =
     (case lookup shortMonthNames 0 s of
        None \<Rightarrow> None
      | Some (m, v1) \<Rightarrow>
          (case skip v1 '' '' of
             None \<Rightarrow> None
           | Some v2 \<Rightarrow>
               (case getnum v2 of
                  None \<Rightarrow> None
                | Some (d, v3) \<Rightarrow>
                    (case skip v3 '', '' of
                       None \<Rightarrow> None
                     | Some v4 \<Rightarrow>
                         if length v4 < 4 \<or> \<not> list_all isDigit (take 4 v4) then None
                         else if drop 4 v4 \<noteq> [] then None
                         else if d < 1 \<or> daysIn (Suc m) (int (decimal (take 4 v4))) < d then None
                         else Some \<lparr>year = int (decimal (take 4 v4)), month = Suc m,
                                    day = d, nsec = 0\<rparr>))))"

subsection \<open>normalizeTime\<close>

text \<open>
  \<open>strconv.ParseInt(s, 10, 64)\<close>, and \<open>strconv.Atoi\<close> where \<open>int\<close> has 64 bits: an optional
  sign and at least one decimal digit, with a value that fits 64 bits; \<open>None\<close> is the error.
\<close>

definition parseInt :: "string \<Rightarrow> int option" where
  "parseInt s =
     (let neg = hasPrefix s ''-'';
          ds = (if hasPrefix s ''-'' \<or> hasPrefix s ''+'' then drop 1 s else s);
          v = (if neg then - int (decimal ds) else int (decimal ds))
      in if ds = [] \<or> \<not> list_all isDigit ds then None
         else if v < - (2 ^ 63) \<or> 2 ^ 63 \<le> v then None
         else Some v)"

text \<open>
  \<open>now\<close> is what \<open>time.Now()\<close> returns. The arithmetic on \<open>quantity\<close> is that of Go's
  64-bit integers, which wraps around: \<open>-quantityDur * time.Hour\<close>, and \<open>-int(quantity)\<close> and
  \<open>-7*int(quantity)\<close> where \<open>int\<close> has 64 bits. The reads \<open>split[0]\<close> and \<open>split[1]\<close> panic
  past the end of the slice.
\<close>

definition normalizeTime :: "Instant \<Rightarrow> string \<Rightarrow> error + string" where
  "normalizeTime now s =
     (if s = ''today'' then Inr (Format (wall now))
      else if contains s ''ago'' then
        (case split s (CHR '' '') of
           [] \<Rightarrow> Inl IndexOutOfRange
         | quantityStr # rest \<Rightarrow>
             (case parseInt quantityStr of
                None \<Rightarrow> Inl (ErrParsingQuantity quantityStr s)
              | Some quantity \<Rightarrow>
                  (case rest of
                     [] \<Rightarrow> Inl IndexOutOfRange
                   | u # _ \<Rightarrow>
                       (let unit = trimSuffix u ''s'' in
                        if unit = ''hour'' then
                          Inr (Format (Add now (sint (- (word_of_int quantity :: 64 word)
                                                       * word_of_int Hour))))
                        else if unit = ''day'' then
                          Inr (Format (AddDate now (sint (- (word_of_int quantity :: 64 word)))))
                        else if unit = ''week'' then
                          Inr (Format (AddDate now (sint (- 7 * (word_of_int quantity :: 64 word)))))
                        else Inl (ErrUnknownQuantity quantityStr s)))))
      else
        (case Parse s of
           None \<Rightarrow> Inl (ErrParsingDate s)
         | Some d \<Rightarrow> Inr (Format d)))"

subsection \<open>A clock for the examples\<close>

text \<open>
  The examples need one clock with its arithmetic: a time in UTC, where local time has no
  jumps, with the methods as Go 1.17 computes them (the version that \<^verbatim>\<open>go.mod\<close> names).
  \<open>shiftDays t k\<close> is the date \<open>k\<close> days of the calendar after that of \<open>t\<close>.
\<close>

definition next_day :: "Time \<Rightarrow> Time" where
  "next_day t =
     (if day t < daysIn (month t) (year t) then t\<lparr>day := day t + 1\<rparr>
      else if month t < 12 then t\<lparr>month := month t + 1, day := 1\<rparr>
      else t\<lparr>year := year t + 1, month := 1, day := 1\<rparr>)"

definition prev_day :: "Time \<Rightarrow> Time" where
  "prev_day t =
     (if 1 < day t then t\<lparr>day := day t - 1\<rparr>
      else if 1 < month t then t\<lparr>month := month t - 1, day := daysIn (month t - 1) (year t)\<rparr>
      else t\<lparr>year := year t - 1, month := 12, day := 31\<rparr>)"

definition shiftDays :: "Time \<Rightarrow> int \<Rightarrow> Time" where
  "shiftDays t k = (if 0 \<le> k then (next_day ^^ nat k) t else (prev_day ^^ nat (- k)) t)"

text \<open>
  \<open>time.Date\<close> counts the days from 1 January of the year -292277022399 in an unsigned
  64-bit integer: \<open>daysSinceEpoch\<close> for the years, \<open>daysBefore\<close> for the months.
\<close>

definition daysSinceEpoch :: "int \<Rightarrow> int" where
  "daysSinceEpoch y =
     (let y0 = y + 292277022399
      in 146097 * (y0 div 400) + 36524 * (y0 mod 400 div 100) + 1461 * (y0 mod 100 div 4)
         + 365 * (y0 mod 4))"

definition daysBefore :: "int list" where
  "daysBefore = [0, 31, 59, 90, 120, 151, 181, 212, 243, 273, 304, 334, 365]"

definition absDays :: "Time \<Rightarrow> int" where
  "absDays t =
     daysSinceEpoch (year t) + daysBefore ! (month t - 1)
     + (if isLeap (year t) \<and> 3 \<le> month t then 1 else 0) + (int (day t) - 1)"

text \<open>
  \<open>t.AddDate(0, 0, k)\<close> in UTC, for a time \<open>t\<close> of our era and \<open>k\<close> in the range of \<open>int\<close>: the
  day number is moved by \<open>k\<close>, and the seconds since the epoch are counted in 64 bits, where
  they wrap around once \<open>k\<close> is beyond some 10^14 days; \<open>Format\<close> then reads the date back
  from those seconds.
\<close>

definition utcAddDate :: "Time \<Rightarrow> int \<Rightarrow> Time" where
  "utcAddDate t k =
     (let secs = ((absDays t + k) * 86400 + nsec t div 1000000000) mod 2 ^ 64
      in shiftDays (t\<lparr>nsec := (secs mod 86400) * 1000000000 + nsec t mod 1000000000\<rparr>)
           (secs div 86400 - absDays t))"

text \<open>
  \<open>t.Add(d)\<close> in UTC, for a time \<open>t\<close> of our era and \<open>d\<close> in the range of a \<open>Duration\<close>: the
  time of day moves by \<open>d\<close>, and the date by the days that this carries.
\<close>

definition utcAdd :: "Time \<Rightarrow> int \<Rightarrow> Time" where
  "utcAdd t d = shiftDays (t\<lparr>nsec := (nsec t + d) mod nsPerDay\<rparr>) ((nsec t + d) div nsPerDay)"

definition utc :: "Time \<Rightarrow> Instant" where
  "utc t = \<lparr>wall = t, Add = utcAdd t, AddDate = utcAddDate t\<rparr>"

text \<open>The clock of the examples: noon of 1 March 2024, in UTC.\<close>

definition exampleNow :: Instant where
  "exampleNow = utc \<lparr>year = 2024, month = 3, day = 1, nsec = 43200000000000\<rparr>"
section \<open>Pages\<close>

text \<open>
  The collector is outside the program. A call of \<open>Visit\<close> has one of three outcomes. The
  collector refuses the URL before it makes a request (a URL that does not parse, that it has
  visited already, or that its filters forbid): \<open>Visit\<close> returns the error and no callback
  runs. Or the request fails, with the status code of the response and the error of the
  transport: the \<open>OnError\<close> callback runs, and \<open>Visit\<close> returns the error. Or a document
  arrives: the \<open>OnHTML\<close> callbacks run, in the order of their registration, each on all the
  elements that its selector matches, and \<open>Visit\<close> returns \<open>nil\<close>. \<open>'p\<close> is what the callbacks
  of one operation read from the document.
\<close>

datatype 'p response = Refused string | Failed nat string | Page 'p

section \<open>Versions\<close>

record Version =
  MajorVersion :: string
  FullVersion :: string
  Date :: string

text \<open>The value \<open>Version{}\<close>.\<close>

definition zeroVersion :: Version where
  "zeroVersion = \<lparr>MajorVersion = [], FullVersion = [], Date = []\<rparr>"

record Versions =
  VersionsPackage :: string
  VersionsList :: "Version list"

text \<open>
  A child of a \<^verbatim>\<open>.Versions-list\<close> element, as the callback of \<open>Each\<close> reads it: its classes
  (\<open>HasClass\<close>), its text (\<open>s.Text()\<close>), the text of its \<^verbatim>\<open>.js-versionLink\<close> descendants, and the
  text of its \<^verbatim>\<open>.Version-summary\<close> descendants once their \<^verbatim>\<open>span\<close> elements are removed.
\<close>

record node =
  classes :: "string list"
  nodeText :: string
  versionLinkText :: string
  summaryText :: string

definition hasClass :: "node \<Rightarrow> string \<Rightarrow> bool" where
  "hasClass s c = (c \<in> set (classes s))"

text \<open>
  The variables of the walk: \<open>curVersion\<close> and \<open>curMajorVersion\<close> are local to one
  \<^verbatim>\<open>.Versions-list\<close> element, \<open>versions\<close> and \<open>errs\<close> belong to the whole request; \<open>printed\<close>
  are the errors written by \<open>println\<close>.
\<close>

record walk =
  curVersion :: Version
  curMajorVersion :: string
  versions :: "Version list"
  errs :: "error list"
  printed :: "error list"

definition major_phase :: "node \<Rightarrow> walk \<Rightarrow> walk" where
  "major_phase s w =
     (if hasClass s ''Version-major'' then
        (let mv = trimSpace (nodeText s);
             cmv = (if mv \<noteq> [] then mv else curMajorVersion w)
         in w\<lparr>curMajorVersion := cmv, curVersion := (curVersion w)\<lparr>MajorVersion := cmv\<rparr>\<rparr>)
      else w)"

definition tag_phase :: "node \<Rightarrow> walk \<Rightarrow> walk" where
  "tag_phase s w =
     (if hasClass s ''Version-tag''
      then w\<lparr>curVersion := (curVersion w)\<lparr>FullVersion := versionLinkText s\<rparr>\<rparr>
      else w)"

text \<open>
  The three statements shared by both terminal markers: stamp the date, append the record,
  reset the record to \<open>Version{}\<close>.
\<close>

definition emit :: "string \<Rightarrow> walk \<Rightarrow> walk" where
  "emit t w = w\<lparr>versions := versions w @ [(curVersion w)\<lparr>Date := t\<rparr>], curVersion := zeroVersion\<rparr>"

definition details_phase :: "Instant \<Rightarrow> node \<Rightarrow> walk \<Rightarrow> walk" where
  "details_phase now s w =
     (if hasClass s ''Version-details'' then
        (case normalizeTime now (trimSpace (summaryText s)) of
           Inl err \<Rightarrow> w\<lparr>printed := printed w @ [err]\<rparr>
         | Inr t \<Rightarrow> emit t w)
      else w)"

text \<open>
  The callback of \<open>Each\<close> for one child. A failure in the \<^verbatim>\<open>Version-commitTime\<close> block returns
  from the callback, so the \<^verbatim>\<open>Version-details\<close> block of the same child is not reached.
\<close>

definition Each_callback :: "Instant \<Rightarrow> node \<Rightarrow> walk \<Rightarrow> walk" where
  "Each_callback now s w =
     (let w2 = tag_phase s (major_phase s w)
      in if hasClass s ''Version-commitTime'' then
           (case normalizeTime now (trimSpace (nodeText s)) of
              Inl err \<Rightarrow> w2\<lparr>errs := errs w2 @ [err]\<rparr>
            | Inr t \<Rightarrow> details_phase now s (emit t w2))
         else details_phase now s w2)"

text \<open>The \<open>OnHTML\<close> callback for one \<^verbatim>\<open>.Versions-list\<close> element with the given children.\<close>

definition Versions_list_callback :: "Instant \<Rightarrow> node list \<Rightarrow> walk \<Rightarrow> walk" where
  "Versions_list_callback now children w =
     fold (Each_callback now) children (w\<lparr>curVersion := zeroVersion, curMajorVersion := []\<rparr>)"

definition emptyWalk :: walk where
  "emptyWalk = \<lparr>curVersion = zeroVersion, curMajorVersion = [], versions = [], errs = [],
                 printed = []\<rparr>"

text \<open>
  \<open>Versions\<close>: the page is the list of its \<^verbatim>\<open>.Versions-list\<close> elements, each the list of its
  children. The value that \<open>Visit\<close> returns is not looked at. The result is the pair that Go
  returns, \<open>None\<close> for \<open>nil\<close>.
\<close>

definition Versions ::
  "Instant \<Rightarrow> string \<Rightarrow> (string \<Rightarrow> node list list response) \<Rightarrow> string
     \<Rightarrow> Versions option \<times> error list option" where
  "Versions now baseURL visit pkg =
     (let url = baseURL @ ''/'' @ pkg @ ''?tab=versions'';
          w = (case visit url of
                 Refused e \<Rightarrow> emptyWalk
               | Failed status e \<Rightarrow>
                   emptyWalk\<lparr>errs := [if status = 404 then ErrNotFound else ErrMakingReq url e]\<rparr>
               | Page elems \<Rightarrow> fold (Versions_list_callback now) elems emptyWalk)
      in if 0 < length (errs w) then (None, Some (errs w))
         else (Some \<lparr>VersionsPackage = pkg, VersionsList = versions w\<rparr>, None))"

text \<open>
  For the examples: a child with one class, whose texts are all \<open>t\<close>, the children of
  a list with two groups and a trailing label, and the text of a label that is blank: a line
  feed, a space and a no-break space (U+00A0, the bytes C2 A0).
\<close>

definition child :: "string \<Rightarrow> string \<Rightarrow> node" where
  "child c t = \<lparr>classes = [c], nodeText = t, versionLinkText = t, summaryText = t\<rparr>"

definition exampleChildren :: "node list" where
  "exampleChildren =
     [child ''Version-major'' ''v1'', child ''Version-tag'' ''v1.2.0'',
      child ''Version-commitTime'' ''today'',
      child ''Version-major'' [], child ''Version-tag'' ''v1.3.0'',
      child ''Version-commitTime'' ''1 day ago'',
      child ''Version-major'' ''v2'']"

definition blankLabel :: string where
  "blankLabel = [CHR 0x0A, CHR '' '', CHR 0xC2, CHR 0xA0]"
section \<open>Search\<close>

record SearchResult =
  rPackage :: string
  rVersion :: string
  rPublished :: string
  rImportedBy :: int
  rLicense :: string
  rSynopsis :: string

record SearchResults =
  Results :: "SearchResult list"

text \<open>More functions of package \<open>strings\<close>: \<open>Trim\<close> with a cutset, the first element of
  \<open>Split\<close> for a separator that is not empty, and \<open>ReplaceAll\<close> of one byte by nothing.\<close>

definition trim :: "string \<Rightarrow> string \<Rightarrow> string" where
  "trim s cutset = rev (dropWhile (\<lambda>c. c \<in> set cutset) (rev (dropWhile (\<lambda>c. c \<in> set cutset) s)))"

fun split_first :: "string \<Rightarrow> string \<Rightarrow> string" where
  "split_first [] sep = []"
| "split_first (c # cs) sep = (if hasPrefix (c # cs) sep then [] else c # split_first cs sep)"

definition removeAll_byte :: "char \<Rightarrow> string \<Rightarrow> string" where
  "removeAll_byte c s = filter (\<lambda>x. x \<noteq> c) s"

subsection \<open>The current Search\<close>

text \<open>
  One \<^verbatim>\<open>.SearchSnippet\<close> element, as the callback reads it: the texts that the selectors
  for the title link, the synopsis, the \<^verbatim>\<open>span\<close> children of the info label, the published
  date, the imported-by count, the license link and the license element return.
\<close>

record snippet =
  titleLinkText :: string
  synopsisText :: string
  versionSpanText :: string
  publishedText :: string
  importedByText :: string
  licenseLinkText :: string
  licenseText :: string

text \<open>
  The variables that the callbacks of \<open>Search\<close> share, and \<open>visited\<close>, the numbers of the
  pages that \<open>col.Visit\<close> was called for, in order.
\<close>

record search =
  results :: "SearchResult list"
  errList :: "error list"
  shouldContinue :: bool
  visited :: "nat list"

text \<open>The callback of \<open>Each\<close> for one snippet; \<open>limit\<close> is \<open>req.Limit\<close>.\<close>

definition snippet_callback :: "Instant \<Rightarrow> int \<Rightarrow> snippet \<Rightarrow> search \<Rightarrow> search" where
  "snippet_callback now limit s st =
     (if limit \<le> int (length (results st)) then st\<lparr>shouldContinue := False\<rparr>
      else
        (let pkg = trimSpace (titleLinkText s);
             synopsis = trimSpace (synopsisText s);
             version = trimSpace (trim (split_first (versionSpanText s) '' published on '')
                                       [CHR '' '', CHR 0x09, CHR 0x0A, CHR 0x0D]);
             publishedDateStr = trimSpace (publishedText s);
             normalized = normalizeTime now publishedDateStr;
             published = (case normalized of Inl err \<Rightarrow> publishedDateStr | Inr t \<Rightarrow> t);
             importedByStr = removeAll_byte (CHR '','') (trimSpace (importedByText s));
             importedBy = (case parseInt importedByStr of None \<Rightarrow> 0 | Some n \<Rightarrow> n);
             license = (if trimSpace (licenseLinkText s) = [] then trimSpace (licenseText s)
                        else trimSpace (licenseLinkText s))
         in st\<lparr>results := results st @
                  [\<lparr>rPackage = pkg, rVersion = version, rPublished = published,
                    rImportedBy = importedBy, rLicense = license, rSynopsis = synopsis\<rparr>],
               errList := (case normalized of
                             Inl err \<Rightarrow> errList st @ [ErrParsingPublished publishedDateStr err]
                           | Inr t \<Rightarrow> errList st)\<rparr>))"

text \<open>The \<open>OnHTML\<close> callback for one \<^verbatim>\<open>.SearchResults\<close> element with the given snippets.\<close>

definition SearchResults_callback :: "Instant \<Rightarrow> int \<Rightarrow> snippet list \<Rightarrow> search \<Rightarrow> search" where
  "SearchResults_callback now limit snippets st =
     (if length snippets = 0 then st\<lparr>shouldContinue := False\<rparr>
      else fold (snippet_callback now limit) snippets st)"

definition search_url :: "string \<Rightarrow> string \<Rightarrow> nat \<Rightarrow> string" where
  "search_url baseURL query page = baseURL @ ''/search?q='' @ query @ ''&page='' @ digits page"

text \<open>
  The loop of \<open>Search\<close> from the page \<open>page\<close> on. A page is the list of its
  \<^verbatim>\<open>.SearchResults\<close> elements. An error that \<open>Visit\<close> returns is recorded and ends the loop,
  after \<open>OnError\<close> has run when it was a request that failed; after any other visit the loop
  ends when the next page number exceeds 10.
\<close>

function search_loop ::
  "Instant \<Rightarrow> int \<Rightarrow> (string \<Rightarrow> snippet list list response) \<Rightarrow> string \<Rightarrow> string
     \<Rightarrow> nat \<Rightarrow> search \<Rightarrow> search" where
  "search_loop now limit visit baseURL query page st =
     (if shouldContinue st \<and> int (length (results st)) < limit then
        (case visit (search_url baseURL query page) of
           Refused e \<Rightarrow>
             st\<lparr>errList := errList st @ [ErrVisitingPage page e],
                visited := visited st @ [page]\<rparr>
         | Failed status e \<Rightarrow>
             st\<lparr>errList := errList st @ [ErrFetching (search_url baseURL query page) e,
                                         ErrVisitingPage page e],
                shouldContinue := False,
                visited := visited st @ [page]\<rparr>
         | Page elems \<Rightarrow>
             (if 10 < page + 1
              then fold (SearchResults_callback now limit) elems (st\<lparr>visited := visited st @ [page]\<rparr>)
              else search_loop now limit visit baseURL query (page + 1)
                     (fold (SearchResults_callback now limit) elems
                        (st\<lparr>visited := visited st @ [page]\<rparr>))))
      else st)"
  by pat_completeness auto
termination
  by (relation "measure (\<lambda>(now, limit, visit, baseURL, query, page, st). 11 - page)") auto

declare search_loop.simps [simp del]

definition Search ::
  "Instant \<Rightarrow> string \<Rightarrow> (string \<Rightarrow> snippet list list response) \<Rightarrow> string \<Rightarrow> int
     \<Rightarrow> SearchResults option \<times> error list option" where
  "Search now baseURL visit query limit =
     (let st = search_loop now limit visit baseURL query 1
                 \<lparr>results = [], errList = [], shouldContinue = True, visited = []\<rparr>
      in if 0 < length (errList st) then (None, Some (errList st))
         else (Some \<lparr>Results = results st\<rparr>, None))"

text \<open>For the examples: a snippet of a package published today, and a site whose every page
  has three of them.\<close>

definition exampleSnippet :: "string \<Rightarrow> snippet" where
  "exampleSnippet name =
     \<lparr>titleLinkText = name, synopsisText = ''a package'',
      versionSpanText = ''v1.0.0 published on today'', publishedText = ''today'',
      importedByText = ''1,234'', licenseLinkText = ''MIT'', licenseText = ''MIT''\<rparr>"

definition exampleResult :: "string \<Rightarrow> SearchResult" where
  "exampleResult name =
     \<lparr>rPackage = name, rVersion = ''v1.0.0'', rPublished = ''2024-03-01'', rImportedBy = 1234,
      rLicense = ''MIT'', rSynopsis = ''a package''\<rparr>"

definition threePerPage :: "string \<Rightarrow> snippet list list response" where
  "threePerPage url = Page [[exampleSnippet ''a'', exampleSnippet ''b'', exampleSnippet ''c'']]"

subsection \<open>The legacy Search\<close>

text \<open>
  The older \<open>Search\<close> of \<^verbatim>\<open>client.go\<close>. A page is what its two callbacks read: the texts of
  the \<^verbatim>\<open>[data-test-id=results-total]\<close> elements, and the \<^verbatim>\<open>.LegacySearchSnippet\<close> elements with the
  texts of their title, synopsis, version, published date, imported-by count and license.
\<close>

record legacySnippet =
  snippetTitle :: string
  snippetSynopsis :: string
  snippetVersion :: string
  snippetPublished :: string
  snippetImportedBy :: string
  snippetLicense :: string

record legacyPage =
  resultsTotal :: "string list"
  legacySnippets :: "legacySnippet list"

record legacySearch =
  legacyResults :: "SearchResult list"
  legacyErrs :: "error list"
  morePages :: bool

text \<open>A callback either returns, with the new values of the variables, or panics.\<close>

datatype 'a run = Panics error | Returns 'a

text \<open>
  The callback for a \<^verbatim>\<open>results-total\<close> element with the text \<open>text\<close>. It reads
  \<open>resultsSplit[2]\<close> and \<open>resultsSplit[4]\<close>, whatever the length of the slice.
\<close>

definition resultsTotal_callback :: "int \<Rightarrow> string \<Rightarrow> legacySearch \<Rightarrow> legacySearch run" where
  "resultsTotal_callback limit text st =
     (let resultsStr = trimSpace text in
      if resultsStr = ''0 results'' then Returns st
      else
        (let resultsSplit = split resultsStr (CHR '' '') in
         if length resultsSplit = 2 then Returns (st\<lparr>morePages := False\<rparr>)
         else if length resultsSplit \<le> 2 then Panics IndexOutOfRange
         else
           (case parseInt (resultsSplit ! 2) of
              None \<Rightarrow> Returns (st\<lparr>legacyErrs := legacyErrs st @ [ErrAtoi (resultsSplit ! 2)]\<rparr>)
            | Some upperBound \<Rightarrow>
                if length resultsSplit \<le> 4 then Panics IndexOutOfRange
                else
                  (let reachedReqLimit = (limit \<le> upperBound);
                       reachedLastPage = (resultsSplit ! 2 = resultsSplit ! 4)
                   in Returns (st\<lparr>morePages := \<not> reachedReqLimit \<and> \<not> reachedLastPage\<rparr>)))))"

definition legacySnippet_callback ::
  "Instant \<Rightarrow> int \<Rightarrow> legacySnippet \<Rightarrow> legacySearch \<Rightarrow> legacySearch" where
  "legacySnippet_callback now limit e st =
     (if int (length (legacyResults st)) = limit then st
      else
        (case normalizeTime now (trimSpace (snippetPublished e)) of
           Inl err \<Rightarrow> st\<lparr>legacyErrs := legacyErrs st @ [err]\<rparr>
         | Inr published \<Rightarrow>
             (let importedByStr = removeAll_byte (CHR '','') (trimSpace (snippetImportedBy e)) in
              case parseInt importedByStr of
                None \<Rightarrow> st\<lparr>legacyErrs := legacyErrs st @ [ErrAtoi importedByStr]\<rparr>
              | Some importedBy \<Rightarrow>
                  st\<lparr>legacyResults := legacyResults st @
                       [\<lparr>rPackage = trimSpace (snippetTitle e),
                         rVersion = trimSpace (snippetVersion e),
                         rPublished = published,
                         rImportedBy = importedBy,
                         rLicense = trimSpace (snippetLicense e),
                         rSynopsis = trimSpace (snippetSynopsis e)\<rparr>]\<rparr>)))"

text \<open>The callbacks for the elements of one list, up to the first panic.\<close>

fun run_each :: "('e \<Rightarrow> 's \<Rightarrow> 's run) \<Rightarrow> 'e list \<Rightarrow> 's \<Rightarrow> 's run" where
  "run_each f [] st = Returns st"
| "run_each f (e # es) st =
     (case f e st of
        Panics err \<Rightarrow> Panics err
      | Returns st' \<Rightarrow> run_each f es st')"

text \<open>
  One \<open>col.Visit\<close> of the legacy \<open>Search\<close>, whose value is not looked at: a refused visit
  changes nothing; \<open>OnError\<close> appends the error of the transport; on a document, the callback
  registered first runs on all its elements before the second one.
\<close>

definition legacy_visit ::
  "Instant \<Rightarrow> int \<Rightarrow> legacyPage response \<Rightarrow> legacySearch \<Rightarrow> legacySearch run" where
  "legacy_visit now limit resp st =
     (case resp of
        Refused e \<Rightarrow> Returns st
      | Failed status e \<Rightarrow> Returns (st\<lparr>legacyErrs := legacyErrs st @ [ErrTransport e]\<rparr>)
      | Page p \<Rightarrow>
          (case run_each (resultsTotal_callback limit) (resultsTotal p) st of
             Panics err \<Rightarrow> Panics err
           | Returns st' \<Rightarrow> Returns (fold (legacySnippet_callback now limit) (legacySnippets p) st')))"

definition legacy_url :: "string \<Rightarrow> string \<Rightarrow> nat \<Rightarrow> string" where
  "legacy_url baseURL query page =
     baseURL @ ''/search?q='' @ query @ ''&m=package&page='' @ digits page"

text \<open>
  The loop \<^verbatim>\<open>for page := 1; morePages; page++\<close>. Nothing bounds it, so it is a partial
  function: \<open>None\<close> is the run that never returns.
\<close>

partial_function (option) legacy_loop ::
  "Instant \<Rightarrow> int \<Rightarrow> (string \<Rightarrow> legacyPage response) \<Rightarrow> string \<Rightarrow> string \<Rightarrow> nat
     \<Rightarrow> legacySearch \<Rightarrow> (SearchResults option \<times> error list option) run option" where
  "legacy_loop now limit visit baseURL query page st =
     (if morePages st then
        (case legacy_visit now limit (visit (legacy_url baseURL query page)) st of
           Panics err \<Rightarrow> Some (Panics err)
         | Returns st' \<Rightarrow>
             if 0 < length (legacyErrs st') then Some (Returns (None, Some (legacyErrs st')))
             else legacy_loop now limit visit baseURL query (page + 1) st')
      else Some (Returns (Some \<lparr>Results = legacyResults st\<rparr>, None)))"

declare legacy_loop.simps [code]

definition Search_legacy ::
  "Instant \<Rightarrow> string \<Rightarrow> (string \<Rightarrow> legacyPage response) \<Rightarrow> string \<Rightarrow> int
     \<Rightarrow> (SearchResults option \<times> error list option) run option" where
  "Search_legacy now baseURL visit query limit =
     legacy_loop now limit visit baseURL query 1
       \<lparr>legacyResults = [], legacyErrs = [], morePages = True\<rparr>"

text \<open>For the examples: a legacy snippet, a page of three of them under a header that
  counts them (with its en dash, the bytes E2 80 93), a header cut short after its third
  word, and the page of a query without results.\<close>

definition exampleLegacySnippet :: legacySnippet where
  "exampleLegacySnippet =
     \<lparr>snippetTitle = ''a'', snippetSynopsis = ''a package'', snippetVersion = ''v1.0.0'',
      snippetPublished = ''today'', snippetImportedBy = ''1,234'', snippetLicense = ''MIT''\<rparr>"

definition enDash :: string where
  "enDash = [CHR 0xE2, CHR 0x80, CHR 0x93]"

definition exampleHeader :: string where
  "exampleHeader = ''1 '' @ enDash @ '' 3 of 3''"

definition shortHeader :: string where
  "shortHeader = ''1 '' @ enDash @ '' 10''"

definition threeOfThree :: "string \<Rightarrow> legacyPage response" where
  "threeOfThree url =
     Page \<lparr>resultsTotal = [exampleHeader],
           legacySnippets = [exampleLegacySnippet, exampleLegacySnippet, exampleLegacySnippet]\<rparr>"

definition noResults :: "string \<Rightarrow> legacyPage response" where
  "noResults url = Page \<lparr>resultsTotal = [''0 results''], legacySnippets = []\<rparr>"

section \<open>DescribePackage\<close>

record Image =
  Alt :: string
  URL :: string

record Package =
  Package :: string
  IsModule :: bool
  IsPackage :: bool
  Version :: string
  Published :: string
  License :: string
  HasValidGoModFile :: bool
  HasRedistributableLicense :: bool
  HasTaggedVersion :: bool
  HasStableVersion :: bool
  Repository :: string
  Synopsis :: string
  Images :: "Image list"

text \<open>The value \<open>&Package{Package: req.Package}\<close>.\<close>

definition newPackage :: "string \<Rightarrow> Package" where
  "newPackage name =
     \<lparr>Package = name, IsModule = False, IsPackage = False, Version = [], Published = [],
      License = [], HasValidGoModFile = False, HasRedistributableLicense = False,
      HasTaggedVersion = False, HasStableVersion = False, Repository = [], Synopsis = [],
      Images = []\<rparr>"

text \<open>
  What the callbacks of \<open>DescribePackage\<close> read from the page of a package, one entry for
  each element that the selector matches, in document order: the text of the first child of
  a \<^verbatim>\<open>UnitHeader-version\<close> and of a \<^verbatim>\<open>UnitHeader-licenses\<close> element; for a \<^verbatim>\<open>.UnitMeta\<close> element,
  whether each of its \<^verbatim>\<open>li\<close> holds a checked image; the text of the first child of a
  \<^verbatim>\<open>.UnitMeta-repo\<close> element; the text of a \<^verbatim>\<open>UnitHeader-commitTime\<close> element; for a
  \<^verbatim>\<open>.UnitHeader-titleHeading\<close> element, the texts of the siblings that follow it; the text of a
  \<^verbatim>\<open>.SearchSnippet-synopsis\<close> element (read by the legacy client only); the \<^verbatim>\<open>alt\<close> and \<^verbatim>\<open>src\<close>
  attributes of an image of the readme, empty when absent.
\<close>

record unitPage =
  headerVersions :: "string list"
  headerLicenses :: "string list"
  unitMetas :: "bool list list"
  metaRepos :: "string list"
  commitTimes :: "string list"
  titleHeadings :: "string list list"
  synopses :: "string list"
  readmeImages :: "(string \<times> string) list"

text \<open>The variables \<open>p\<close> and \<open>errs\<close> that the callbacks share.\<close>

record describe =
  dpkg :: Package
  derrs :: "error list"

definition version_callback :: "string \<Rightarrow> describe \<Rightarrow> describe" where
  "version_callback versionStr st =
     st\<lparr>dpkg := (dpkg st)\<lparr>Version := trimSpace (trimPrefix versionStr ''Version: '')\<rparr>\<rparr>"

definition licenses_callback :: "string \<Rightarrow> describe \<Rightarrow> describe" where
  "licenses_callback licenseStr st = st\<lparr>dpkg := (dpkg st)\<lparr>License := trimSpace licenseStr\<rparr>\<rparr>"

text \<open>The four badges, by the position of the list item.\<close>

fun badges :: "nat \<Rightarrow> bool list \<Rightarrow> Package \<Rightarrow> Package" where
  "badges i [] p = p"
| "badges i (checked # lis) p =
     badges (Suc i) lis
       (if i = 0 then p\<lparr>HasValidGoModFile := checked\<rparr>
        else if i = 1 then p\<lparr>HasRedistributableLicense := checked\<rparr>
        else if i = 2 then p\<lparr>HasTaggedVersion := checked\<rparr>
        else if i = 3 then p\<lparr>HasStableVersion := checked\<rparr>
        else p)"

definition unitMeta_callback :: "bool list \<Rightarrow> describe \<Rightarrow> describe" where
  "unitMeta_callback lis st = st\<lparr>dpkg := badges 0 lis (dpkg st)\<rparr>"

text \<open>The cutset of \<open>strings.Trim(text, "\\n")\<close> is a backslash and the letter n.\<close>

definition repo_callback :: "string \<Rightarrow> describe \<Rightarrow> describe" where
  "repo_callback text st =
     st\<lparr>dpkg := (dpkg st)\<lparr>Repository := trimSpace (trim text [CHR 0x5C, CHR ''n''])\<rparr>\<rparr>"

definition commitTime_callback :: "Instant \<Rightarrow> string \<Rightarrow> describe \<Rightarrow> describe" where
  "commitTime_callback now text st =
     (case normalizeTime now (trimPrefix (trimSpace text) ''Published: '') of
        Inl err \<Rightarrow> st\<lparr>derrs := derrs st @ [err]\<rparr>
      | Inr t \<Rightarrow> st\<lparr>dpkg := (dpkg st)\<lparr>Published := t\<rparr>\<rparr>)"

text \<open>
  The scan of the siblings after a title heading. Past the last sibling the selection is
  empty and its text is the empty string, which is no label: the scan always ends in the
  default case.
\<close>

fun titleHeading_callback :: "string \<Rightarrow> string list \<Rightarrow> describe \<Rightarrow> describe" where
  "titleHeading_callback name [] st =
     (if \<not> IsPackage (dpkg st) \<and> \<not> IsModule (dpkg st)
      then st\<lparr>derrs := derrs st @ [ErrIsPackageFalse name]\<rparr>
      else st)"
| "titleHeading_callback name (label # siblings) st =
     (if label = ''command'' then titleHeading_callback name siblings st
      else if label = ''package'' then
        titleHeading_callback name siblings (st\<lparr>dpkg := (dpkg st)\<lparr>IsPackage := True\<rparr>\<rparr>)
      else if label = ''module'' then
        titleHeading_callback name siblings (st\<lparr>dpkg := (dpkg st)\<lparr>IsModule := True\<rparr>\<rparr>)
      else if \<not> IsPackage (dpkg st) \<and> \<not> IsModule (dpkg st)
        then st\<lparr>derrs := derrs st @ [ErrIsPackageFalse name]\<rparr>
      else st)"

definition synopsis_callback :: "string \<Rightarrow> describe \<Rightarrow> describe" where
  "synopsis_callback text st = st\<lparr>dpkg := (dpkg st)\<lparr>Synopsis := trimSpace text\<rparr>\<rparr>"

definition image_callback :: "string \<Rightarrow> string \<times> string \<Rightarrow> describe \<Rightarrow> describe" where
  "image_callback baseURL img st =
     (let alt = fst img;
          src = snd img;
          url = (if \<not> hasPrefix src ''http''
                 then (if hasPrefix src ''/'' then baseURL @ src else baseURL @ ''/'' @ src)
                 else src)
      in st\<lparr>dpkg := (dpkg st)\<lparr>Images := Images (dpkg st) @ [\<lparr>Alt = alt, URL = url\<rparr>]\<rparr>\<rparr>)"

text \<open>
  All callbacks on one document, in the order of their registration; \<open>legacy\<close> tells
  whether the synopsis callback of \<^verbatim>\<open>client.go\<close> is registered.
\<close>

definition describe_callbacks ::
  "bool \<Rightarrow> Instant \<Rightarrow> string \<Rightarrow> string \<Rightarrow> unitPage \<Rightarrow> describe \<Rightarrow> describe" where
  "describe_callbacks legacy now baseURL name pg st =
     fold (image_callback baseURL) (readmeImages pg)
       ((if legacy then fold synopsis_callback (synopses pg) else id)
          (fold (titleHeading_callback name) (titleHeadings pg)
             (fold (commitTime_callback now) (commitTimes pg)
                (fold repo_callback (metaRepos pg)
                   (fold unitMeta_callback (unitMetas pg)
                      (fold licenses_callback (headerLicenses pg)
                         (fold version_callback (headerVersions pg) st)))))))"

text \<open>
  The visit and the two return statements. The result is the pair that Go returns, \<open>None\<close>
  for \<open>nil\<close>.
\<close>

definition describe_package ::
  "bool \<Rightarrow> Instant \<Rightarrow> string \<Rightarrow> (string \<Rightarrow> unitPage response) \<Rightarrow> string
     \<Rightarrow> Package option \<times> error list option" where
  "describe_package legacy now baseURL visit name =
     (let url = baseURL @ ''/'' @ name;
          st0 = \<lparr>dpkg = newPackage name, derrs = []\<rparr>;
          st = (case visit url of
                  Refused e \<Rightarrow> st0
                | Failed status e \<Rightarrow>
                    st0\<lparr>derrs := [if status = 404 then ErrNotFound else ErrMakingReq url e]\<rparr>
                | Page pg \<Rightarrow> describe_callbacks legacy now baseURL name pg st0)
      in if length (derrs st) \<noteq> 0 then (None, Some (derrs st))
         else (Some (dpkg st), None))"

definition DescribePackage ::
  "Instant \<Rightarrow> string \<Rightarrow> (string \<Rightarrow> unitPage response) \<Rightarrow> string
     \<Rightarrow> Package option \<times> error list option" where
  "DescribePackage = describe_package False"

definition DescribePackage_legacy ::
  "Instant \<Rightarrow> string \<Rightarrow> (string \<Rightarrow> unitPage response) \<Rightarrow> string
     \<Rightarrow> Package option \<times> error list option" where
  "DescribePackage_legacy = describe_package True"

text \<open>For the examples: a page whose title heading is followed by the given labels, with a
  version, a date and an image of the readme.\<close>

definition examplePage :: "string list \<Rightarrow> unitPage" where
  "examplePage labels =
     \<lparr>headerVersions = [''Version: v1.2.0''], headerLicenses = [''MIT''],
      unitMetas = [[True, True, False, False]], metaRepos = [''github.com/user/repo''],
      commitTimes = [''Published: today''], titleHeadings = [labels],
      synopses = [], readmeImages = [(''logo'', ''/logo.png'')]\<rparr>"

section \<open>Repository URLs\<close>

subsection \<open>normalizeRepoURL\<close>

text \<open>
  The regular expression of \<open>normalizeRepoURL\<close> is \<^verbatim>\<open>git@([^:]+):(.+)\.git$\<close>.
  A match that starts at the head of a string is forced: \<^verbatim>\<open>git@\<close>, then the longest run of
  bytes other than a colon (it must be followed by the colon, so no shorter run will do), not
  empty, then the colon, then everything up to the last four bytes \<^verbatim>\<open>.git\<close> of the text
  (\<open>$\<close> is the end of the text), not empty and free of line feeds, which \<open>.\<close> does not
  match. \<open>submatch_at\<close> returns the two groups of that match.
\<close>

definition submatch_at :: "string \<Rightarrow> (string \<times> string) option" where
  "submatch_at s =
     (if hasPrefix s ''git@'' then
        (let t = drop 4 s;
             host = takeWhile (\<lambda>c. c \<noteq> CHR '':'') t;
             r = dropWhile (\<lambda>c. c \<noteq> CHR '':'') t
         in if host = [] then None
            else (case r of
                    [] \<Rightarrow> None
                  | _ # p \<Rightarrow>
                      if hasSuffix p ''.git'' \<and> 4 < length p
                         \<and> CHR 0x0A \<notin> set (take (length p - 4) p)
                      then Some (host, take (length p - 4) p)
                      else None))
      else None)"

text \<open>
  \<open>FindStringSubmatch\<close> returns the leftmost match: the search tries every start position
  from the left. \<open>None\<close> is Go's nil slice; a match always has the three entries that the
  code asks for (the whole match and two groups).
\<close>

fun findStringSubmatch :: "string \<Rightarrow> (string \<times> string) option" where
  "findStringSubmatch [] = submatch_at []"
| "findStringSubmatch (c # cs) =
     (case submatch_at (c # cs) of
        Some m \<Rightarrow> Some m
      | None \<Rightarrow> findStringSubmatch cs)"

definition normalizeRepoURL :: "string \<Rightarrow> string" where
  "normalizeRepoURL repoURL =
     (case (if hasPrefix repoURL ''git@'' then findStringSubmatch repoURL else None) of
        Some (h, p) \<Rightarrow> ''https://'' @ h @ ''/'' @ p
      | None \<Rightarrow>
          ''https://'' @ (if hasSuffix repoURL ''.git'' then trimSuffix repoURL ''.git''
                         else repoURL))"

subsection \<open>The host of a parsed URL\<close>

text \<open>
  \<open>identifyGitHost\<close> reads one thing from \<open>url.Parse\<close>: whether it failed, and the field
  \<open>Host\<close>. \<open>url_Parse_Host\<close> follows the steps of \<open>net/url\<close> that decide them: cut the
  fragment at the first \<open>#\<close>, refuse control bytes, split the scheme off (\<open>getScheme\<close>),
  cut the query at the first \<open>?\<close>, take the authority between \<open>//\<close> and the next \<open>/\<close>,
  drop the user information before the last \<open>@\<close>, check the port and unescape the host;
  a malformed percent escape in the path, the user information or the fragment is an error
  too. \<open>None\<close> is the error; a URL without authority has the empty host.
\<close>

definition isCTL :: "char \<Rightarrow> bool" where
  "isCTL c = ((of_char c :: nat) < 32 \<or> (of_char c :: nat) = 127)"

fun getScheme_go :: "string \<Rightarrow> string \<Rightarrow> string \<Rightarrow> (string \<times> string) option" where
  "getScheme_go raw acc [] = Some ([], raw)"
| "getScheme_go raw acc (c # cs) =
     (if isAlpha c then getScheme_go raw (acc @ [c]) cs
      else if isDigit c \<or> c \<in> set ''+-.'' then
        (if acc = [] then Some ([], raw) else getScheme_go raw (acc @ [c]) cs)
      else if c = CHR '':'' then (if acc = [] then None else Some (acc, cs))
      else Some ([], raw))"

definition getScheme :: "string \<Rightarrow> (string \<times> string) option" where
  "getScheme raw = getScheme_go raw [] raw"

definition ishex :: "char \<Rightarrow> bool" where
  "ishex c = (c \<in> set ''0123456789abcdefABCDEF'')"

definition unhex :: "char \<Rightarrow> nat" where
  "unhex c =
     (if isDigit c then of_char c - 48
      else if c \<in> set ''abcdef'' then of_char c - 97 + 10
      else if c \<in> set ''ABCDEF'' then of_char c - 65 + 10
      else 0)"

text \<open>Outside the host, \<open>unescape\<close> fails on a malformed percent escape only.\<close>

fun escapes_ok :: "string \<Rightarrow> bool" where
  "escapes_ok [] = True"
| "escapes_ok (c # cs) =
     (if c = CHR ''%'' then
        (case cs of
           h1 # h2 # r \<Rightarrow> ishex h1 \<and> ishex h2 \<and> escapes_ok r
         | _ \<Rightarrow> False)
      else escapes_ok cs)"

definition hostByteAllowed :: "char \<Rightarrow> bool" where
  "hostByteAllowed c =
     (isAlpha c \<or> isDigit c \<or> c \<in> set ''!$&()*+,;=:[]<>-_.~''
      \<or> c = CHR 0x27 \<or> c = CHR 0x22 \<or> 128 \<le> (of_char c :: nat))"

text \<open>
  In the host, a percent escape may only stand for a byte from 0x80 on, or be \<^verbatim>\<open>%25\<close>, and
  an ASCII byte that would have to be escaped is an error. (Zone identifiers of IPv6
  literals are unescaped by the same rules here.)
\<close>

fun unescape_host :: "string \<Rightarrow> string option" where
  "unescape_host [] = Some []"
| "unescape_host (c # cs) =
     (if c = CHR ''%'' then
        (case cs of
           h1 # h2 # r \<Rightarrow>
             if ishex h1 \<and> ishex h2 then
               (if unhex h1 < 8 \<and> \<not> (h1 = CHR ''2'' \<and> h2 = CHR ''5'') then None
                else map_option (\<lambda>t. char_of (unhex h1 * 16 + unhex h2) # t) (unescape_host r))
             else None
         | _ \<Rightarrow> None)
      else if hostByteAllowed c then map_option (\<lambda>t. c # t) (unescape_host cs)
      else None)"

definition validOptionalPort :: "string \<Rightarrow> bool" where
  "validOptionalPort port =
     (case port of
        [] \<Rightarrow> True
      | c # ds \<Rightarrow> c = CHR '':'' \<and> list_all isDigit ds)"

definition parseHost :: "string \<Rightarrow> string option" where
  "parseHost host =
     (if hasPrefix host ''['' then
        (if CHR '']'' \<notin> set host then None
         else if \<not> validOptionalPort (rev (takeWhile (\<lambda>c. c \<noteq> CHR '']'') (rev host))) then None
         else unescape_host host)
      else if CHR '':'' \<in> set host
              \<and> \<not> validOptionalPort (CHR '':'' # rev (takeWhile (\<lambda>c. c \<noteq> CHR '':'') (rev host)))
        then None
      else unescape_host host)"

definition validUserinfo :: "string \<Rightarrow> bool" where
  "validUserinfo s =
     list_all (\<lambda>c. isAlpha c \<or> isDigit c \<or> c \<in> set ''-._:~!$&()*+,;=%@'' \<or> c = CHR 0x27) s"

definition parseAuthority :: "string \<Rightarrow> string option" where
  "parseAuthority authority =
     (if CHR ''@'' \<notin> set authority then parseHost authority
      else
        (let hostpart = rev (takeWhile (\<lambda>c. c \<noteq> CHR ''@'') (rev authority));
             userinfo = take (length authority - length hostpart - 1) authority
         in case parseHost hostpart of
              None \<Rightarrow> None
            | Some h \<Rightarrow> if validUserinfo userinfo \<and> escapes_ok userinfo then Some h else None))"

definition url_parse :: "string \<Rightarrow> string option" where
  "url_parse u =
     (if list_ex isCTL u then None
      else if u = ''*'' then Some []
      else
        (case getScheme u of
           None \<Rightarrow> None
         | Some (scheme, rest0) \<Rightarrow>
             (let rest = takeWhile (\<lambda>c. c \<noteq> CHR ''?'') rest0
              in if \<not> hasPrefix rest ''/'' \<and> scheme \<noteq> [] then Some []
                 else if \<not> hasPrefix rest ''/''
                         \<and> CHR '':'' \<in> set (takeWhile (\<lambda>c. c \<noteq> CHR ''/'') rest) then None
                 else if (scheme \<noteq> [] \<or> \<not> hasPrefix rest ''///'') \<and> hasPrefix rest ''//'' then
                   (let authority = takeWhile (\<lambda>c. c \<noteq> CHR ''/'') (drop 2 rest);
                        path = dropWhile (\<lambda>c. c \<noteq> CHR ''/'') (drop 2 rest)
                    in case parseAuthority authority of
                         None \<Rightarrow> None
                       | Some h \<Rightarrow> if escapes_ok path then Some h else None)
                 else if escapes_ok rest then Some [] else None)))"

definition url_Parse_Host :: "string \<Rightarrow> string option" where
  "url_Parse_Host rawURL =
     (let u = takeWhile (\<lambda>c. c \<noteq> CHR ''#'') rawURL;
          frag = drop 1 (dropWhile (\<lambda>c. c \<noteq> CHR ''#'') rawURL)
      in case url_parse u of
           None \<Rightarrow> None
         | Some h \<Rightarrow> if escapes_ok frag then Some h else None)"

subsection \<open>identifyGitHost and fetchDescription\<close>

datatype GitHostType =
  GitHostUnknown | GitHostGitHub | GitHostGitLab | GitHostCodeberg | GitHostSourcehut

definition identifyGitHost :: "string \<Rightarrow> GitHostType" where
  "identifyGitHost repoURL =
     (case url_Parse_Host repoURL of
        None \<Rightarrow> GitHostUnknown
      | Some host \<Rightarrow>
          if contains host ''github.com'' then GitHostGitHub
          else if contains host ''gitlab.com'' then GitHostGitLab
          else if contains host ''codeberg.org'' then GitHostCodeberg
          else if contains host ''git.sr.ht'' then GitHostSourcehut
          else GitHostUnknown)"

text \<open>
  \<open>fetchDescription\<close> hands the normalized URL to one of four page lookups. The pages
  are outside the program: \<open>extract h url\<close> is the text that the lookup for host type
  \<open>h\<close> returns for \<open>url\<close>.
\<close>

definition fetchDescription :: "(GitHostType \<Rightarrow> string \<Rightarrow> string) \<Rightarrow> string \<Rightarrow> string" where
  "fetchDescription extract repoURL =
     (if repoURL = [] then []
      else
        (let normalizedURL = normalizeRepoURL repoURL;
             hostType = identifyGitHost normalizedURL
         in case hostType of
              GitHostGitHub \<Rightarrow> extract GitHostGitHub normalizedURL
            | GitHostGitLab \<Rightarrow> extract GitHostGitLab normalizedURL
            | GitHostCodeberg \<Rightarrow> extract GitHostCodeberg normalizedURL
            | GitHostSourcehut \<Rightarrow> extract GitHostSourcehut normalizedURL
            | GitHostUnknown \<Rightarrow> []))"

section \<open>Properties of the string functions\<close>

lemma hasPrefix_iff: "hasPrefix s p \<longleftrightarrow> (\<exists>r. s = p @ r)"
  by (induction s p rule: hasPrefix.induct) auto

lemma hasSuffix_iff: "hasSuffix s suf \<longleftrightarrow> (\<exists>r. s = r @ suf)"
proof -
  have "hasSuffix s suf \<longleftrightarrow> (\<exists>r. rev s = rev suf @ r)"
    by (simp add: hasSuffix_def hasPrefix_iff)
  also have "\<dots> \<longleftrightarrow> (\<exists>r. s = r @ suf)"
  proof
    assume "\<exists>r. rev s = rev suf @ r"
    then obtain r where "rev s = rev suf @ r" by blast
    then have "s = rev r @ suf" by (metis rev_append rev_rev_ident)
    then show "\<exists>r. s = r @ suf" by blast
  next
    assume "\<exists>r. s = r @ suf"
    then show "\<exists>r. rev s = rev suf @ r" by auto
  qed
  finally show ?thesis .
qed

lemma trimSuffix_app: "trimSuffix (r @ suf) suf = r"
  using hasSuffix_iff [of "r @ suf" suf] by (simp add: trimSuffix_def)

lemma trimLeftRunes_Nil [simp]: "trimLeftRunes tab [] = []"
  by (simp add: trimLeftRunes.simps)

lemma trimLeftRunes_stop: "spaceLen tab s = 0 \<Longrightarrow> trimLeftRunes tab s = s"
  by (simp add: trimLeftRunes.simps)

lemma trimLeftRunes_step:
  "s \<noteq> [] \<Longrightarrow> 0 < spaceLen tab s
   \<Longrightarrow> trimLeftRunes tab s = trimLeftRunes tab (drop (spaceLen tab s) s)"
  by (subst trimLeftRunes.simps) simp

lemmas trimSpace_eval = trimSpace_def spaceRunes_def trimLeftRunes_stop trimLeftRunes_step

lemma trimSpace_Nil [simp]: "trimSpace [] = []"
  by (simp add: trimSpace_def)
section \<open>Properties of normalizeTime\<close>

lemma contains_set: "contains s sub \<Longrightarrow> set sub \<subseteq> set s"
proof (induction s)
  case Nil
  then show ?case by simp
next
  case (Cons c cs)
  from Cons.prems have "hasPrefix (c # cs) sub \<or> contains cs sub" by simp
  then show ?case
  proof
    assume "hasPrefix (c # cs) sub"
    then obtain r where "c # cs = sub @ r" by (auto simp: hasPrefix_iff)
    then have "set (c # cs) = set sub \<union> set r" by (metis set_append)
    then show ?thesis by blast
  next
    assume "contains cs sub"
    with Cons.IH show ?thesis by auto
  qed
qed



lemma split_append: "c \<notin> set a \<Longrightarrow> split (a @ c # b) c = a # split b c"
  by (induction a) auto

lemma digits_isDigit: "list_all isDigit (digits n)"
proof (induction n rule: digits.induct)
  case (1 n)
  have d: "\<And>k. k < 10 \<Longrightarrow> isDigit (''0123456789'' ! k)"
  proof -
    fix k :: nat assume "k < 10"
    then have "k \<in> {0,1,2,3,4,5,6,7,8,9}" by auto
    then show "isDigit (''0123456789'' ! k)" by (auto simp: isDigit_def)
  qed
  show ?case
  proof (cases "n < 10")
    case True
    then show ?thesis using d [of n] by (subst digits.simps) simp
  next
    case False
    then show ?thesis using 1 d [of "n mod 10"] by (subst digits.simps) simp
  qed
qed

lemma digits_not_Nil: "digits n \<noteq> []"
  by (subst digits.simps) simp

lemma appendInt_chars: "list_all dateByte (appendInt x w)"
proof -
  have "list_all dateByte (digits (nat \<bar>x\<bar>))"
    using digits_isDigit [of "nat \<bar>x\<bar>"] by (simp add: list_all_iff dateByte_def)
  moreover have "list_all dateByte (replicate k (CHR ''0''))" for k
    by (simp add: list_all_iff dateByte_def isDigit_def)
  ultimately show ?thesis by (simp add: appendInt_def dateByte_def)
qed

lemma appendInt_not_Nil: "appendInt x w \<noteq> []"
  by (simp add: appendInt_def digits_not_Nil)

lemma Format_chars: "list_all dateByte (Format t)"
  using appendInt_chars [of "year t" 4] appendInt_chars [of "int (month t)" 2]
    appendInt_chars [of "int (day t)" 2]
  by (simp add: Format_def dateByte_def)

lemma Format_not_Nil: "Format t \<noteq> []"
  by (simp add: Format_def appendInt_not_Nil)

lemma dateByte_not_alpha: "dateByte c \<Longrightarrow> \<not> isAlpha c"
  by (auto simp: dateByte_def isDigit_def isAlpha_def)

lemma lookup_None:
  "\<forall>v\<in>set tab. v \<noteq> [] \<and> isAlpha (hd v) \<Longrightarrow> val = [] \<or> \<not> isAlpha (hd val)
   \<Longrightarrow> lookup tab i val = None"
proof (induction tab arbitrary: i)
  case Nil
  then show ?case by simp
next
  case (Cons v tab)
  from Cons.prems obtain a v' where v: "v = a # v'" and a: "isAlpha a"
    by (cases v) auto
  have "\<not> (length v \<le> length val \<and> list_all2 matchByte (take (length v) val) v)"
  proof
    assume h: "length v \<le> length val \<and> list_all2 matchByte (take (length v) val) v"
    with v obtain c cs where val: "val = c # cs" by (cases val) auto
    with h v have "matchByte c a" by simp
    moreover from val Cons.prems have "\<not> isAlpha c" by simp
    ultimately show False using a by (auto simp: matchByte_def)
  qed
  moreover have "lookup tab (Suc i) val = None"
    using Cons by simp
  ultimately show ?case by simp
qed

lemma lookup_month_None:
  "val = [] \<or> \<not> isAlpha (hd val) \<Longrightarrow> lookup shortMonthNames i val = None"
  by (rule lookup_None) (simp_all add: shortMonthNames_def isAlpha_def)

lemma normalizeTime_Inr_Format: "normalizeTime now s = Inr r \<Longrightarrow> \<exists>t. r = Format t"
  by (auto simp: normalizeTime_def Let_def split: if_splits list.splits option.splits)

lemma Format_reparse: "normalizeTime now (Format t) = Inl (ErrParsingDate (Format t))"
proof -
  have ch: "list_all dateByte (Format t)" by (rule Format_chars)
  have 1: "Format t \<noteq> ''today''"
  proof
    assume "Format t = ''today''"
    with ch show False by (simp add: dateByte_def isDigit_def)
  qed
  have 2: "\<not> contains (Format t) ''ago''"
  proof
    assume "contains (Format t) ''ago''"
    then have "CHR ''a'' \<in> set (Format t)" using contains_set by fastforce
    with ch have "dateByte (CHR ''a'')" by (simp add: list_all_iff)
    then show False by (simp add: dateByte_def isDigit_def)
  qed
  have "\<not> isAlpha (hd (Format t))"
    using ch Format_not_Nil [of t] dateByte_not_alpha by (cases "Format t") auto
  then have 3: "Parse (Format t) = None"
    by (simp add: Parse_def lookup_month_None)
  from 1 2 3 show ?thesis by (simp add: normalizeTime_def)
qed

lemma parseInt_Some_chars:
  assumes "parseInt q = Some n"
  shows "q \<noteq> []" and "\<forall>c\<in>set q. isDigit c \<or> c = CHR ''-'' \<or> c = CHR ''+''"
proof -
  let ?ds = "if hasPrefix q ''-'' \<or> hasPrefix q ''+'' then drop 1 q else q"
  from assms have ds: "?ds \<noteq> []" "list_all isDigit ?ds"
    by (auto simp: parseInt_def Let_def split: if_splits)
  from ds(1) show "q \<noteq> []" by auto
  show "\<forall>c\<in>set q. isDigit c \<or> c = CHR ''-'' \<or> c = CHR ''+''"
  proof (cases q)
    case Nil
    then show ?thesis by simp
  next
    case (Cons c cs)
    with ds(2) show ?thesis
      by (auto simp: list_all_iff split: if_splits)
  qed
qed

lemma parseInt_range: "parseInt q = Some n \<Longrightarrow> - (2 ^ 63) \<le> n \<and> n < 2 ^ 63"
  by (auto simp: parseInt_def Let_def split: if_splits)

lemma parseInt_no_space: "parseInt q = Some n \<Longrightarrow> CHR '' '' \<notin> set q"
proof
  assume "parseInt q = Some n" "CHR '' '' \<in> set q"
  then have "isDigit (CHR '' '') \<or> CHR '' '' = CHR ''-'' \<or> CHR '' '' = CHR ''+''"
    using parseInt_Some_chars(2) by blast
  then show False by (simp add: isDigit_def)
qed



lemma sint_wi64:
  "- (2 ^ 63) \<le> (k::int) \<Longrightarrow> k < 2 ^ 63 \<Longrightarrow> sint (word_of_int k :: 64 word) = k"
proof -
  assume a: "- (2 ^ 63) \<le> k" "k < 2 ^ 63"
  have "sint (word_of_int k :: 64 word) = signed_take_bit 63 k"
    by (subst sint_sbintrunc') simp
  also have "\<dots> = k" using a by (intro signed_take_bit_int_eq_self) auto
  finally show ?thesis .
qed

lemma sint_neg64:
  "- (2 ^ 63) < (N::int) \<Longrightarrow> N < 2 ^ 63 \<Longrightarrow> sint (- (word_of_int N :: 64 word)) = - N"
proof -
  assume a: "- (2 ^ 63) < N" "N < 2 ^ 63"
  have "- (word_of_int N :: 64 word) = word_of_int (- N)" by simp
  then show ?thesis using a sint_wi64 [of "- N"] by simp
qed



lemma daysIn_bounds: "28 \<le> daysIn m y \<and> daysIn m y \<le> 31"
  by (simp add: daysIn_def)

lemma next_day_valid: "validTime t \<Longrightarrow> validTime (next_day t)"
  using daysIn_bounds [of "month t" "year t"] daysIn_bounds [of "Suc (month t)" "year t"]
    daysIn_bounds [of 1 "year t + 1"]
  by (auto simp: validTime_def next_day_def)

lemma prev_day_valid: "validTime t \<Longrightarrow> validTime (prev_day t)"
proof -
  assume v: "validTime t"
  from v have n: "0 \<le> nsec t" "nsec t < nsPerDay"
    and md: "1 \<le> month t" "month t \<le> 12" "1 \<le> day t" "day t \<le> daysIn (month t) (year t)"
    by (simp_all add: validTime_def)
  consider (a) "1 < day t" | (b) "\<not> 1 < day t" "1 < month t" | (c) "\<not> 1 < day t" "\<not> 1 < month t"
    by blast
  then show ?thesis
  proof cases
    case a
    then have pd: "prev_day t = t\<lparr>day := day t - 1\<rparr>"
      by (simp add: prev_day_def)
    have "1 \<le> day t - 1" "day t - 1 \<le> daysIn (month t) (year t)"
      using a md by arith+
    then show ?thesis unfolding pd validTime_def using n md by simp
  next
    case b
    then have pd: "prev_day t = t\<lparr>month := month t - 1, day := daysIn (month t - 1) (year t)\<rparr>"
      by (simp add: prev_day_def)
    have "1 \<le> daysIn (month t - 1) (year t)"
      using daysIn_bounds [of "month t - 1" "year t"] by simp
    moreover have "1 \<le> month t - 1" "month t - 1 \<le> 12"
      using b md by arith+
    ultimately show ?thesis unfolding pd validTime_def using n by simp
  next
    case c
    then have pd: "prev_day t = t\<lparr>year := year t - 1, month := 12, day := 31\<rparr>"
      by (simp add: prev_day_def)
    have "daysIn 12 (year t - 1) = 31" by (simp add: daysIn_def)
    then show ?thesis unfolding pd validTime_def using n by simp
  qed
qed

lemma funpow_valid:
  "(\<And>t. validTime t \<Longrightarrow> validTime (f t)) \<Longrightarrow> validTime t \<Longrightarrow> validTime ((f ^^ k) t)"
  by (induction k) auto

lemma shiftDays_valid: "validTime t \<Longrightarrow> validTime (shiftDays t d)"
  by (simp add: shiftDays_def funpow_valid next_day_valid prev_day_valid)

lemma utcAdd_valid: "validTime t \<Longrightarrow> validTime (utcAdd t d)"
proof -
  assume v: "validTime t"
  have "validTime (t\<lparr>nsec := (nsec t + d) mod nsPerDay\<rparr>)"
    using v by (simp add: validTime_def nsPerDay_def)
  then show ?thesis unfolding utcAdd_def by (rule shiftDays_valid)
qed














lemma contains_append: "contains w sub \<Longrightarrow> contains (p @ w) sub"
  by (induction p) auto

lemma split_phrase:
  "CHR '' '' \<notin> set n \<Longrightarrow> CHR '' '' \<notin> set u
   \<Longrightarrow> split (n @ '' '' @ u @ '' '' @ w) (CHR '' '') = n # u # split w (CHR '' '')"
  using split_append [of "CHR '' ''" n "u @ '' '' @ w"] split_append [of "CHR '' ''" u w]
  by simp

lemma normalizeTime_relative:
  assumes n: "parseInt n = Some N" and u: "CHR '' '' \<notin> set u" and w: "contains w ''ago''"
  shows "normalizeTime now (n @ '' '' @ u @ '' '' @ w) =
     (if trimSuffix u ''s'' = ''hour'' then
        Inr (Format (Add now (sint (- (word_of_int N :: 64 word) * word_of_int Hour))))
      else if trimSuffix u ''s'' = ''day'' then
        Inr (Format (AddDate now (sint (- (word_of_int N :: 64 word)))))
      else if trimSuffix u ''s'' = ''week'' then
        Inr (Format (AddDate now (sint (- 7 * (word_of_int N :: 64 word)))))
      else Inl (ErrUnknownQuantity n (n @ '' '' @ u @ '' '' @ w)))"
proof -
  let ?s = "n @ '' '' @ u @ '' '' @ w"
  have sp: "split ?s (CHR '' '') = n # u # split w (CHR '' '')"
    using parseInt_no_space [OF n] u by (rule split_phrase)
  have 1: "?s \<noteq> ''today''"
  proof
    assume e: "?s = ''today''"
    have "CHR '' '' \<in> set ?s" by simp
    then have "CHR '' '' \<in> set ''today''" by (simp only: e)
    then show False by simp
  qed
  have 2: "contains ?s ''ago''"
    using contains_append [OF w, of "n @ '' '' @ u @ '' ''"] by simp
  show ?thesis
    unfolding normalizeTime_def using 1 2 by (simp only: sp n if_False if_True list.case option.case Let_def)
qed


lemma trimSuffix_units:
  "trimSuffix ''hour'' ''s'' = ''hour''" "trimSuffix ''hours'' ''s'' = ''hour''"
  "trimSuffix ''day'' ''s'' = ''day''" "trimSuffix ''days'' ''s'' = ''day''"
  "trimSuffix ''week'' ''s'' = ''week''" "trimSuffix ''weeks'' ''s'' = ''week''"
  by (simp_all add: trimSuffix_def hasSuffix_def)


lemma normalizeTime_days:
  assumes "parseInt n = Some N" "contains w ''ago''" "- (2 ^ 63) < N"
  shows "normalizeTime now (n @ '' day '' @ w) = Inr (Format (AddDate now (- N)))"
    and "normalizeTime now (n @ '' days '' @ w) = Inr (Format (AddDate now (- N)))"
  using normalizeTime_relative [OF assms(1) _ assms(2), of "''day''" now]
    normalizeTime_relative [OF assms(1) _ assms(2), of "''days''" now]
    sint_neg64 [OF assms(3)] parseInt_range [OF assms(1)]
  by (simp_all add: trimSuffix_units)


lemma normalizeTime_unknown_unit:
  assumes "parseInt n = Some N" "contains w ''ago''" "CHR '' '' \<notin> set u"
    "trimSuffix u ''s'' \<noteq> ''hour''" "trimSuffix u ''s'' \<noteq> ''day''"
    "trimSuffix u ''s'' \<noteq> ''week''"
  shows "normalizeTime now (n @ '' '' @ u @ '' '' @ w)
           = Inl (ErrUnknownQuantity n (n @ '' '' @ u @ '' '' @ w))"
  using normalizeTime_relative [OF assms(1,3,2), of now] assms(4-6) by simp


lemma shiftDays_0: "shiftDays t 0 = t"
  by (simp add: shiftDays_def)

lemma shiftDays_neg: "d < 0 \<Longrightarrow> shiftDays t d = shiftDays (prev_day t) (d + 1)"
proof -
  assume d: "d < 0"
  then have "nat (- d) = Suc (nat (- (d + 1)))" by simp
  then have "(prev_day ^^ nat (- d)) t = (prev_day ^^ nat (- (d + 1))) (prev_day t)"
    by (simp only: funpow_Suc_right o_apply)
  then show ?thesis using d by (cases "d + 1 = 0") (simp_all add: shiftDays_def)
qed

text \<open>As long as the seconds fit 64 bits, \<open>AddDate\<close> in UTC moves the date by \<open>k\<close> days.\<close>

lemma utcAddDate_in_range:
  assumes "0 \<le> nsec t" "nsec t < nsPerDay"
    "0 \<le> absDays t + k" "(absDays t + k) * 86400 + 86400 \<le> 2 ^ 64"
  shows "utcAddDate t k = shiftDays t k"
proof -
  define q where "q = nsec t div 1000000000"
  have q: "0 \<le> q" "q < 86400"
    using assms(1,2) unfolding q_def nsPerDay_def by (simp_all add: div_less_iff_less_mult)
  let ?a = "(absDays t + k) * 86400 + q"
  have lo: "0 \<le> ?a" using assms(3) q(1) by simp
  have hi: "?a < 2 ^ 64" using assms(4) q(2) by simp
  have m: "?a mod 2 ^ 64 = ?a" using lo hi by simp
  have d: "?a div 86400 = absDays t + k" using q by simp
  have "?a mod 86400 = q mod 86400" by (rule mod_mult_self3)
  then have r: "?a mod 86400 = q" using q by simp
  have n: "q * 1000000000 + nsec t mod 1000000000 = nsec t"
    unfolding q_def by simp
  have "t\<lparr>nsec := q * 1000000000 + nsec t mod 1000000000\<rparr> = t"
    by (simp only: n) simp
  then show ?thesis
    unfolding utcAddDate_def Let_def q_def [symmetric] m d r by simp
qed

lemma exampleNow_fields:
  "wall exampleNow = \<lparr>year = 2024, month = 3, day = 1, nsec = 43200000000000\<rparr>"
  "Add exampleNow = utcAdd \<lparr>year = 2024, month = 3, day = 1, nsec = 43200000000000\<rparr>"
  "AddDate exampleNow = utcAddDate \<lparr>year = 2024, month = 3, day = 1, nsec = 43200000000000\<rparr>"
  by (simp_all add: exampleNow_def utc_def)

lemma exampleNow_valid: "validTime (wall exampleNow)"
  by (simp add: validTime_def exampleNow_fields daysIn_def nsPerDay_def)

lemma absDays_exampleNow: "absDays (wall exampleNow) = 106751991092877"
  by (simp add: exampleNow_fields absDays_def daysSinceEpoch_def daysBefore_def isLeap_def)

lemma AddDate_exampleNow:
  assumes "- 1000 \<le> k" "k \<le> 1000"
  shows "AddDate exampleNow k = shiftDays (wall exampleNow) k"
proof -
  have e: "AddDate exampleNow = utcAddDate (wall exampleNow)"
    by (simp add: exampleNow_def utc_def)
  have n: "0 \<le> nsec (wall exampleNow)" "nsec (wall exampleNow) < nsPerDay"
    using exampleNow_valid by (simp_all add: validTime_def)
  show ?thesis
    unfolding e using assms by (intro utcAddDate_in_range n) (simp_all add: absDays_exampleNow)
qed

lemma Format_exampleNow: "Format (wall exampleNow) = ''2024-03-01''"
  by (simp add: Format_def appendInt_def exampleNow_fields digits.simps)






lemma parseInt_3: "parseInt ''3'' = Some 3"
  by (simp add: parseInt_def decimal_def digitVal_def isDigit_def)

lemma Parse_Jan_2_2006:
  "Parse ''Jan 2, 2006'' = Some \<lparr>year = 2006, month = 1, day = 2, nsec = 0\<rparr>"
  by (simp add: Parse_def shortMonthNames_def matchByte_def getnum_def cutspace_def
      decimal_def digitVal_def isDigit_def daysIn_def)

lemma Format_2006: "Format \<lparr>year = 2006, month = 1, day = 2, nsec = 0\<rparr> = ''2006-01-02''"
  by (simp add: Format_def appendInt_def digits.simps)

lemma Parse_not_a_date: "Parse ''not a date'' = None"
  by (simp add: Parse_def shortMonthNames_def matchByte_def isAlpha_def lowerOf_def)




text \<open>
  Claim C5, as the code has it. A string that \<open>normalizeTime\<close> has returned is never accepted
  when it is fed back: it consists of digits and hyphens, so it is neither \<^verbatim>\<open>today\<close> nor
  contains \<^verbatim>\<open>ago\<close>, it goes to the absolute-date branch, and the only layout there,
  \<^verbatim>\<open>Jan 2, 2006\<close>, begins with the name of a month. The result is the parse error.
\<close>

theorem normalizeTime_rejects_its_output:
  "normalizeTime now s = Inr r \<Longrightarrow> normalizeTime now' r = Inl (ErrParsingDate r)"
  using normalizeTime_Inr_Format Format_reparse by blast

theorem normalizeTime_rejects_its_output_witness:
  "normalizeTime exampleNow ''Jan 2, 2006'' = Inr ''2006-01-02''
   \<and> normalizeTime exampleNow ''2006-01-02'' = Inl (ErrParsingDate ''2006-01-02'')"
proof -
  have "normalizeTime exampleNow ''Jan 2, 2006''
      = Inr (Format \<lparr>year = 2006, month = 1, day = 2, nsec = 0\<rparr>)"
    by (simp add: normalizeTime_def Parse_Jan_2_2006 del: One_nat_def)
  then have a: "normalizeTime exampleNow ''Jan 2, 2006'' = Inr ''2006-01-02''"
    by (simp only: Format_2006)
  from a normalizeTime_rejects_its_output [OF a, of exampleNow] show ?thesis by blast
qed

text \<open>
  Claim C5 as it is written fails: the canonical date that \<^verbatim>\<open>today\<close> yields is not returned
  unchanged when it is normalized again, it is refused.
\<close>

theorem normalizeTime_roundtrip_counterexample:
  "normalizeTime exampleNow ''today'' = Inr ''2024-03-01''
   \<and> normalizeTime exampleNow ''2024-03-01'' = Inl (ErrParsingDate ''2024-03-01'')"
proof -
  have 1: "normalizeTime exampleNow ''today'' = Inr ''2024-03-01''"
    by (simp add: normalizeTime_def Format_exampleNow)
  have "Parse ''2024-03-01'' = None"
    by (simp add: Parse_def lookup_month_None isAlpha_def)
  then have 2: "normalizeTime exampleNow ''2024-03-01'' = Inl (ErrParsingDate ''2024-03-01'')"
    by (simp add: normalizeTime_def)
  from 1 2 show ?thesis by (intro conjI)
qed

section \<open>Properties of the version list\<close>

lemma major_phase_keeps [simp]:
  "versions (major_phase s w) = versions w" "errs (major_phase s w) = errs w"
  "printed (major_phase s w) = printed w"
  by (simp_all add: major_phase_def Let_def)

lemma tag_phase_keeps [simp]:
  "versions (tag_phase s w) = versions w" "errs (tag_phase s w) = errs w"
  "printed (tag_phase s w) = printed w" "curMajorVersion (tag_phase s w) = curMajorVersion w"
  "MajorVersion (curVersion (tag_phase s w)) = MajorVersion (curVersion w)"
  by (simp_all add: tag_phase_def)

lemma emit_simps [simp]:
  "versions (emit t w) = versions w @ [(curVersion w)\<lparr>Date := t\<rparr>]"
  "curVersion (emit t w) = zeroVersion" "curMajorVersion (emit t w) = curMajorVersion w"
  "errs (emit t w) = errs w" "printed (emit t w) = printed w"
  by (simp_all add: emit_def)

lemma details_phase_plain [simp]:
  "\<not> hasClass s ''Version-details'' \<Longrightarrow> details_phase now s w = w"
  by (simp add: details_phase_def)

lemma details_phase_keeps [simp]:
  "errs (details_phase now s w) = errs w"
  "curMajorVersion (details_phase now s w) = curMajorVersion w"
  by (simp_all add: details_phase_def split: sum.splits)

text \<open>What one child adds to the output: nothing, or records dated by its own texts.\<close>

lemma details_phase_versions:
  "\<exists>new. versions (details_phase now s w) = versions w @ new
     \<and> (\<forall>v\<in>set new. normalizeTime now (trimSpace (summaryText s)) = Inr (Date v))"
  by (cases "normalizeTime now (trimSpace (summaryText s))") (auto simp: details_phase_def)

lemma Each_callback_versions:
  "\<exists>new. versions (Each_callback now s w) = versions w @ new
     \<and> (\<forall>v\<in>set new. normalizeTime now (trimSpace (nodeText s)) = Inr (Date v)
                     \<or> normalizeTime now (trimSpace (summaryText s)) = Inr (Date v))"
proof (cases "hasClass s ''Version-commitTime''")
  case False
  then show ?thesis
    using details_phase_versions [of now s "tag_phase s (major_phase s w)"]
    by (auto simp: Each_callback_def Let_def)
next
  case True
  show ?thesis
  proof (cases "normalizeTime now (trimSpace (nodeText s))")
    case (Inl err)
    with True show ?thesis by (simp add: Each_callback_def Let_def)
  next
    case (Inr t)
    obtain new where
      "versions (details_phase now s (emit t (tag_phase s (major_phase s w))))
         = versions (emit t (tag_phase s (major_phase s w))) @ new"
      "\<forall>v\<in>set new. normalizeTime now (trimSpace (summaryText s)) = Inr (Date v)"
      using details_phase_versions by blast
    with True Inr show ?thesis
      by (intro exI [of _ "(curVersion (tag_phase s (major_phase s w)))\<lparr>Date := t\<rparr> # new"])
         (auto simp: Each_callback_def Let_def)
  qed
qed

lemma fold_Each_callback_versions:
  "\<forall>v\<in>set (versions (fold (Each_callback now) nodes w)).
     v \<in> set (versions w)
     \<or> (\<exists>n\<in>set nodes. normalizeTime now (trimSpace (nodeText n)) = Inr (Date v)
                       \<or> normalizeTime now (trimSpace (summaryText n)) = Inr (Date v))"
proof (induction nodes arbitrary: w)
  case Nil
  then show ?case by simp
next
  case (Cons n nodes)
  obtain new where new: "versions (Each_callback now n w) = versions w @ new"
    "\<forall>v\<in>set new. normalizeTime now (trimSpace (nodeText n)) = Inr (Date v)
                     \<or> normalizeTime now (trimSpace (summaryText n)) = Inr (Date v)"
    using Each_callback_versions by blast
  show ?case
  proof
    fix v assume "v \<in> set (versions (fold (Each_callback now) (n # nodes) w))"
    then have "v \<in> set (versions (Each_callback now n w))
      \<or> (\<exists>m\<in>set nodes. normalizeTime now (trimSpace (nodeText m)) = Inr (Date v)
                       \<or> normalizeTime now (trimSpace (summaryText m)) = Inr (Date v))"
      using Cons.IH [of "Each_callback now n w"] by simp
    with new show "v \<in> set (versions w)
     \<or> (\<exists>m\<in>set (n # nodes). normalizeTime now (trimSpace (nodeText m)) = Inr (Date v)
                       \<or> normalizeTime now (trimSpace (summaryText m)) = Inr (Date v))"
      by auto
  qed
qed

lemma Versions_list_callback_accepted:
  "\<forall>v\<in>set (versions w). (\<exists>x. normalizeTime now x = Inr (Date v))
   \<Longrightarrow> \<forall>v\<in>set (versions (Versions_list_callback now children w)). (\<exists>x. normalizeTime now x = Inr (Date v))"
  unfolding Versions_list_callback_def
  using fold_Each_callback_versions [of now children "w\<lparr>curVersion := zeroVersion, curMajorVersion := []\<rparr>"]
  by auto

lemma fold_Versions_list_callback_accepted:
  "\<forall>v\<in>set (versions w). (\<exists>x. normalizeTime now x = Inr (Date v))
   \<Longrightarrow> \<forall>v\<in>set (versions (fold (Versions_list_callback now) elems w)). (\<exists>x. normalizeTime now x = Inr (Date v))"
proof (induction elems arbitrary: w)
  case Nil
  then show ?case by simp
next
  case (Cons e elems)
  then show ?case using Versions_list_callback_accepted [of w now e] by simp
qed

lemma Versions_accepted:
  assumes "Versions now baseURL visit pkg = (Some r, e)"
  shows "\<forall>v\<in>set (VersionsList r). (\<exists>x. normalizeTime now x = Inr (Date v))"
proof (cases "visit (baseURL @ ''/'' @ pkg @ ''?tab=versions'')")
  case (Refused msg)
  with assms show ?thesis by (auto simp: Versions_def Let_def emptyWalk_def)
next
  case (Failed status msg)
  with assms show ?thesis by (simp add: Versions_def Let_def emptyWalk_def)
next
  case (Page elems)
  have "\<forall>v\<in>set (versions (fold (Versions_list_callback now) elems emptyWalk)). (\<exists>x. normalizeTime now x = Inr (Date v))"
    by (rule fold_Versions_list_callback_accepted) (simp add: emptyWalk_def)
  with assms Page show ?thesis
    by (auto simp: Versions_def Let_def split: if_splits)
qed

lemma Each_callback_no_terminal:
  "\<not> hasClass s ''Version-commitTime'' \<Longrightarrow> \<not> hasClass s ''Version-details''
   \<Longrightarrow> Each_callback now s w = tag_phase s (major_phase s w)"
  by (simp add: Each_callback_def Let_def)

lemma Each_callback_commitTime:
  assumes "hasClass s ''Version-commitTime''" "\<not> hasClass s ''Version-details''"
  shows "Each_callback now s w =
     (case normalizeTime now (trimSpace (nodeText s)) of
        Inl err \<Rightarrow> (tag_phase s (major_phase s w))\<lparr>errs := errs w @ [err]\<rparr>
      | Inr t \<Rightarrow> emit t (tag_phase s (major_phase s w)))"
  using assms by (simp add: Each_callback_def Let_def split: sum.splits)

lemma Each_callback_details:
  assumes "\<not> hasClass s ''Version-commitTime''" "hasClass s ''Version-details''"
  shows "Each_callback now s w =
     (case normalizeTime now (trimSpace (summaryText s)) of
        Inl err \<Rightarrow> (tag_phase s (major_phase s w))\<lparr>printed := printed w @ [err]\<rparr>
      | Inr t \<Rightarrow> emit t (tag_phase s (major_phase s w)))"
  using assms by (simp add: Each_callback_def details_phase_def Let_def split: sum.splits)

lemma normalizeTime_exampleNow_today: "normalizeTime exampleNow ''today'' = Inr ''2024-03-01''"
  by (simp add: normalizeTime_def Format_exampleNow)

lemma normalizeTime_exampleNow_1_day: "normalizeTime exampleNow ''1 day ago'' = Inr ''2024-02-29''"
proof -
  have p: "parseInt ''1'' = Some 1"
    by (simp add: parseInt_def decimal_def digitVal_def isDigit_def)
  have "AddDate exampleNow (- 1) = \<lparr>year = 2024, month = 2, day = 29, nsec = 43200000000000\<rparr>"
    by (simp add: AddDate_exampleNow exampleNow_fields(1) shiftDays_neg shiftDays_0 prev_day_def
        daysIn_def isLeap_def)
  then have "Format (AddDate exampleNow (- 1)) = ''2024-02-29''"
    by (simp add: Format_def appendInt_def digits.simps)
  then show ?thesis using normalizeTime_days(1) [OF p, of "''ago''" exampleNow] by simp
qed

lemma child_simps [simp]:
  "hasClass (child c t) c' = (c' = c)" "nodeText (child c t) = t"
  "versionLinkText (child c t) = t" "summaryText (child c t) = t"
  by (auto simp: child_def hasClass_def)

lemma trimSpace_examples [simp]:
  "trimSpace ''today'' = ''today''" "trimSpace ''1 day ago'' = ''1 day ago''"
  "trimSpace ''v1'' = ''v1''" "trimSpace ''v2'' = ''v2''" "trimSpace [] = []"
  "trimSpace ''v1.2.0'' = ''v1.2.0''" "trimSpace ''v1.3.0'' = ''v1.3.0''"
  by (simp_all add: trimSpace_eval)

lemma Each_callback_child_major:
  "Each_callback now (child ''Version-major'' t) w =
     w\<lparr>curMajorVersion := (if trimSpace t \<noteq> [] then trimSpace t else curMajorVersion w),
       curVersion := (curVersion w)\<lparr>MajorVersion :=
         (if trimSpace t \<noteq> [] then trimSpace t else curMajorVersion w)\<rparr>\<rparr>"
  by (simp add: Each_callback_no_terminal major_phase_def tag_phase_def Let_def)

lemma Each_callback_child_tag:
  "Each_callback now (child ''Version-tag'' t) w = w\<lparr>curVersion := (curVersion w)\<lparr>FullVersion := t\<rparr>\<rparr>"
  by (simp add: Each_callback_no_terminal major_phase_def tag_phase_def Let_def)

lemma Each_callback_child_commitTime:
  "normalizeTime now (trimSpace t) = Inr d \<Longrightarrow>
     Each_callback now (child ''Version-commitTime'' t) w = emit d w"
  by (simp add: Each_callback_commitTime major_phase_def tag_phase_def Let_def)

lemma Each_callback_child_details:
  "normalizeTime now (trimSpace t) = Inr d \<Longrightarrow>
     Each_callback now (child ''Version-details'' t) w = emit d w"
  by (simp add: Each_callback_details major_phase_def tag_phase_def Let_def)

lemma exampleChildren_walk:
  "fold (Each_callback exampleNow) exampleChildren emptyWalk =
     \<lparr>curVersion = \<lparr>MajorVersion = ''v2'', FullVersion = [], Date = []\<rparr>,
      curMajorVersion = ''v2'',
      versions = [\<lparr>MajorVersion = ''v1'', FullVersion = ''v1.2.0'', Date = ''2024-03-01''\<rparr>,
                  \<lparr>MajorVersion = ''v1'', FullVersion = ''v1.3.0'', Date = ''2024-02-29''\<rparr>],
      errs = [], printed = []\<rparr>"
  by (simp add: exampleChildren_def Each_callback_child_major Each_callback_child_tag
      Each_callback_child_commitTime normalizeTime_exampleNow_today normalizeTime_exampleNow_1_day
      emit_def emptyWalk_def zeroVersion_def)

lemma Versions_exampleChildren:
  "Versions exampleNow ''https://pkg.go.dev'' (\<lambda>u. Page [exampleChildren]) ''p'' =
     (Some \<lparr>VersionsPackage = ''p'', VersionsList =
        [\<lparr>MajorVersion = ''v1'', FullVersion = ''v1.2.0'', Date = ''2024-03-01''\<rparr>,
         \<lparr>MajorVersion = ''v1'', FullVersion = ''v1.3.0'', Date = ''2024-02-29''\<rparr>]\<rparr>, None)"
proof -
  have "Versions_list_callback exampleNow exampleChildren emptyWalk
      = fold (Each_callback exampleNow) exampleChildren emptyWalk"
    by (simp add: Versions_list_callback_def emptyWalk_def)
  then show ?thesis
    by (simp add: Versions_def Let_def exampleChildren_walk)
qed

lemma fold_no_terminal:
  "\<forall>n\<in>set ms. \<not> hasClass n ''Version-commitTime'' \<and> \<not> hasClass n ''Version-details''
   \<Longrightarrow> versions (fold (Each_callback now) ms w) = versions w
       \<and> errs (fold (Each_callback now) ms w) = errs w"
  by (induction ms arbitrary: w) (simp_all add: Each_callback_no_terminal)

lemma Versions_trailing_discarded:
  assumes "\<forall>n\<in>set ms. \<not> hasClass n ''Version-commitTime'' \<and> \<not> hasClass n ''Version-details''"
  shows "Versions now baseURL (\<lambda>u. Page (elems @ [ns @ ms])) pkg
           = Versions now baseURL (\<lambda>u. Page (elems @ [ns])) pkg"
proof -
  let ?w = "fold (Versions_list_callback now) elems emptyWalk"
  have "versions (Versions_list_callback now (ns @ ms) ?w) = versions (Versions_list_callback now ns ?w)
      \<and> errs (Versions_list_callback now (ns @ ms) ?w) = errs (Versions_list_callback now ns ?w)"
    using fold_no_terminal [OF assms] by (simp add: Versions_list_callback_def)
  then show ?thesis by (simp add: Versions_def Let_def)
qed

lemma Each_callback_curMajorVersion:
  "curMajorVersion (Each_callback now s w)
     = (if hasClass s ''Version-major'' \<and> trimSpace (nodeText s) \<noteq> []
        then trimSpace (nodeText s) else curMajorVersion w)"
proof -
  have m: "curMajorVersion (tag_phase s (major_phase s w))
     = (if hasClass s ''Version-major'' \<and> trimSpace (nodeText s) \<noteq> []
        then trimSpace (nodeText s) else curMajorVersion w)"
    by (simp add: major_phase_def Let_def)
  show ?thesis
  proof (cases "hasClass s ''Version-commitTime''")
    case False
    then show ?thesis using m by (simp add: Each_callback_def Let_def)
  next
    case True
    then show ?thesis using m
      by (cases "normalizeTime now (trimSpace (nodeText s))") (simp_all add: Each_callback_def Let_def)
  qed
qed

lemma blank_group:
  assumes "trimSpace b = []" "normalizeTime now (trimSpace t) = Inr d"
  shows "versions (fold (Each_callback now)
            [child ''Version-major'' b, child ''Version-tag'' v, child ''Version-commitTime'' t] w)
           = versions w @ [\<lparr>MajorVersion = curMajorVersion w, FullVersion = v, Date = d\<rparr>]"
    and "curMajorVersion (fold (Each_callback now)
            [child ''Version-major'' b, child ''Version-tag'' v, child ''Version-commitTime'' t] w)
           = curMajorVersion w"
  using assms
  by (simp_all add: Each_callback_child_major Each_callback_child_tag
      Each_callback_child_commitTime)

lemma fold_no_terminal_printed:
  "\<forall>n\<in>set ms. \<not> hasClass n ''Version-commitTime'' \<and> \<not> hasClass n ''Version-details''
   \<Longrightarrow> printed (fold (Each_callback now) ms w) = printed w"
  by (induction ms arbitrary: w) (simp_all add: Each_callback_no_terminal)

text \<open>
  The callback of a list starts from an empty record and an empty sticky value, so what it
  does depends on the output and the errors so far, not on what the list before left pending.
\<close>

lemma Versions_list_callback_fresh:
  "Versions_list_callback now cs (w\<lparr>curVersion := cv, curMajorVersion := cmv\<rparr>)
     = Versions_list_callback now cs w"
  by (simp add: Versions_list_callback_def)

lemma Versions_list_callback_cong:
  assumes "versions w = versions w'" "errs w = errs w'" "printed w = printed w'"
  shows "Versions_list_callback now cs w = Versions_list_callback now cs w'"
proof -
  from assms have "w\<lparr>curVersion := zeroVersion, curMajorVersion := []\<rparr>
      = w'\<lparr>curVersion := zeroVersion, curMajorVersion := []\<rparr>"
    by (cases w, cases w') simp
  then show ?thesis by (simp add: Versions_list_callback_def)
qed

lemma fold_Versions_list_callback_cong:
  assumes "versions w = versions w'" "errs w = errs w'" "printed w = printed w'"
  shows "versions (fold (Versions_list_callback now) es w)
           = versions (fold (Versions_list_callback now) es w')
         \<and> errs (fold (Versions_list_callback now) es w)
           = errs (fold (Versions_list_callback now) es w')"
proof (cases es)
  case Nil
  with assms show ?thesis by simp
next
  case (Cons e es')
  have "Versions_list_callback now e w = Versions_list_callback now e w'"
    using assms by (rule Versions_list_callback_cong)
  with Cons show ?thesis by simp
qed

lemma Versions_pending_discarded:
  assumes "\<forall>n\<in>set ms. \<not> hasClass n ''Version-commitTime'' \<and> \<not> hasClass n ''Version-details''"
  shows "Versions now baseURL (\<lambda>u. Page (elems @ [ns @ ms] @ elems')) pkg
           = Versions now baseURL (\<lambda>u. Page (elems @ [ns] @ elems')) pkg"
proof -
  let ?w = "fold (Versions_list_callback now) elems emptyWalk"
  let ?a = "Versions_list_callback now (ns @ ms) ?w"
  let ?b = "Versions_list_callback now ns ?w"
  have "versions ?a = versions ?b" "errs ?a = errs ?b" "printed ?a = printed ?b"
    using fold_no_terminal [OF assms] fold_no_terminal_printed [OF assms]
    by (simp_all add: Versions_list_callback_def)
  then have "versions (fold (Versions_list_callback now) elems' ?a)
           = versions (fold (Versions_list_callback now) elems' ?b)
         \<and> errs (fold (Versions_list_callback now) elems' ?a)
           = errs (fold (Versions_list_callback now) elems' ?b)"
    by (rule fold_Versions_list_callback_cong)
  then show ?thesis by (simp add: Versions_def Let_def)
qed

lemma trimSpace_blankLabel: "trimSpace blankLabel = []"
  by (simp add: blankLabel_def trimSpace_eval)

lemma Versions_twoLists:
  "Versions exampleNow ''https://pkg.go.dev''
      (\<lambda>u. Page [exampleChildren,
                  [child ''Version-tag'' ''v0.9.0'', child ''Version-commitTime'' ''today'']]) ''p'' =
     (Some \<lparr>VersionsPackage = ''p'', VersionsList =
        [\<lparr>MajorVersion = ''v1'', FullVersion = ''v1.2.0'', Date = ''2024-03-01''\<rparr>,
         \<lparr>MajorVersion = ''v1'', FullVersion = ''v1.3.0'', Date = ''2024-02-29''\<rparr>,
         \<lparr>MajorVersion = [], FullVersion = ''v0.9.0'', Date = ''2024-03-01''\<rparr>]\<rparr>, None)"
proof -
  have 1: "Versions_list_callback exampleNow exampleChildren emptyWalk
      = fold (Each_callback exampleNow) exampleChildren emptyWalk"
    by (simp add: Versions_list_callback_def emptyWalk_def)
  show ?thesis
    by (simp add: Versions_def Let_def 1 exampleChildren_walk)
       (simp add: Versions_list_callback_def Each_callback_child_tag
          Each_callback_child_commitTime normalizeTime_exampleNow_today zeroVersion_def)
qed
text \<open>
  Claim C1, as the code has it. A child without a terminal class appends nothing. A child
  with one terminal class (\<^verbatim>\<open>Version-commitTime\<close> or \<^verbatim>\<open>Version-details\<close>) appends nothing when
  \<open>normalizeTime\<close> refuses its text (the error goes to \<open>errs\<close> for the first class and is only
  printed for the second), and otherwise appends exactly one record, the record in progress
  with the normalized date, after which the record in progress is \<open>Version{}\<close> and only
  \<open>curMajorVersion\<close> persists. So every record of the walk that was not there before, and
  every record that \<open>Versions\<close> returns, has a date that \<open>normalizeTime\<close> accepted. Nothing
  is checked about \<open>FullVersion\<close>: it is what the last \<^verbatim>\<open>Version-tag\<close> child since the previous
  emission has set, or empty.
\<close>

theorem Versions_emission:
  "(\<not> hasClass s ''Version-commitTime'' \<and> \<not> hasClass s ''Version-details'' \<longrightarrow>
      versions (Each_callback now s w) = versions w)
   \<and> (hasClass s ''Version-commitTime'' \<and> \<not> hasClass s ''Version-details'' \<longrightarrow>
        (case normalizeTime now (trimSpace (nodeText s)) of
           Inl err \<Rightarrow> versions (Each_callback now s w) = versions w
                      \<and> errs (Each_callback now s w) = errs w @ [err]
         | Inr t \<Rightarrow> versions (Each_callback now s w)
                        = versions w @ [(curVersion (tag_phase s (major_phase s w)))\<lparr>Date := t\<rparr>]
                    \<and> curVersion (Each_callback now s w) = zeroVersion
                    \<and> curMajorVersion (Each_callback now s w) = curMajorVersion (major_phase s w)))
   \<and> (\<not> hasClass s ''Version-commitTime'' \<and> hasClass s ''Version-details'' \<longrightarrow>
        (case normalizeTime now (trimSpace (summaryText s)) of
           Inl err \<Rightarrow> versions (Each_callback now s w) = versions w
                      \<and> errs (Each_callback now s w) = errs w
         | Inr t \<Rightarrow> versions (Each_callback now s w)
                        = versions w @ [(curVersion (tag_phase s (major_phase s w)))\<lparr>Date := t\<rparr>]
                    \<and> curVersion (Each_callback now s w) = zeroVersion
                    \<and> curMajorVersion (Each_callback now s w) = curMajorVersion (major_phase s w)))
   \<and> (\<forall>v\<in>set (versions (fold (Each_callback now) nodes w)).
         v \<in> set (versions w)
         \<or> (\<exists>n\<in>set nodes. normalizeTime now (trimSpace (nodeText n)) = Inr (Date v)
                           \<or> normalizeTime now (trimSpace (summaryText n)) = Inr (Date v)))
   \<and> (Versions now baseURL visit pkg = (Some r, e) \<longrightarrow>
         (\<forall>v\<in>set (VersionsList r). \<exists>x. normalizeTime now x = Inr (Date v)))"
proof -
  have 1: "\<not> hasClass s ''Version-commitTime'' \<and> \<not> hasClass s ''Version-details'' \<longrightarrow>
      versions (Each_callback now s w) = versions w"
    by (simp add: Each_callback_no_terminal)
  have 2: "hasClass s ''Version-commitTime'' \<and> \<not> hasClass s ''Version-details'' \<longrightarrow>
        (case normalizeTime now (trimSpace (nodeText s)) of
           Inl err \<Rightarrow> versions (Each_callback now s w) = versions w
                      \<and> errs (Each_callback now s w) = errs w @ [err]
         | Inr t \<Rightarrow> versions (Each_callback now s w)
                        = versions w @ [(curVersion (tag_phase s (major_phase s w)))\<lparr>Date := t\<rparr>]
                    \<and> curVersion (Each_callback now s w) = zeroVersion
                    \<and> curMajorVersion (Each_callback now s w) = curMajorVersion (major_phase s w))"
    by (simp add: Each_callback_commitTime split: sum.splits)
  have 3: "\<not> hasClass s ''Version-commitTime'' \<and> hasClass s ''Version-details'' \<longrightarrow>
        (case normalizeTime now (trimSpace (summaryText s)) of
           Inl err \<Rightarrow> versions (Each_callback now s w) = versions w
                      \<and> errs (Each_callback now s w) = errs w
         | Inr t \<Rightarrow> versions (Each_callback now s w)
                        = versions w @ [(curVersion (tag_phase s (major_phase s w)))\<lparr>Date := t\<rparr>]
                    \<and> curVersion (Each_callback now s w) = zeroVersion
                    \<and> curMajorVersion (Each_callback now s w) = curMajorVersion (major_phase s w))"
    by (simp add: Each_callback_details split: sum.splits)
  note 4 = fold_Each_callback_versions [of now nodes w]
  have 5: "Versions now baseURL visit pkg = (Some r, e) \<longrightarrow>
         (\<forall>v\<in>set (VersionsList r). \<exists>x. normalizeTime now x = Inr (Date v))"
    using Versions_accepted by blast
  from 1 2 3 4 5 show ?thesis by (intro conjI)
qed

text \<open>The steps of the example list, and the dates of the two records it yields.\<close>

theorem Versions_emission_witness:
  "versions (Each_callback exampleNow (child ''Version-tag'' ''v1.2.0'') emptyWalk) = []
   \<and> versions (Each_callback exampleNow (child ''Version-commitTime'' ''today'')
        (emptyWalk\<lparr>curVersion := \<lparr>MajorVersion = ''v1'', FullVersion = ''v1.2.0'', Date = []\<rparr>\<rparr>))
      = [\<lparr>MajorVersion = ''v1'', FullVersion = ''v1.2.0'', Date = ''2024-03-01''\<rparr>]
   \<and> curVersion (Each_callback exampleNow (child ''Version-commitTime'' ''today'')
        (emptyWalk\<lparr>curVersion := \<lparr>MajorVersion = ''v1'', FullVersion = ''v1.2.0'', Date = []\<rparr>\<rparr>))
      = zeroVersion
   \<and> versions (Each_callback exampleNow (child ''Version-details'' ''1 day ago'') emptyWalk)
      = [\<lparr>MajorVersion = [], FullVersion = [], Date = ''2024-02-29''\<rparr>]
   \<and> (\<exists>x. normalizeTime exampleNow x = Inr ''2024-03-01'')
   \<and> (\<exists>x. normalizeTime exampleNow x = Inr ''2024-02-29'')"
proof -
  let ?w = "emptyWalk\<lparr>curVersion := \<lparr>MajorVersion = ''v1'', FullVersion = ''v1.2.0'', Date = []\<rparr>\<rparr>"
  note a = Versions_emission [where s = "child ''Version-tag'' ''v1.2.0''" and w = emptyWalk
      and now = exampleNow, THEN conjunct1]
  note b = Versions_emission [where s = "child ''Version-commitTime'' ''today''" and w = ?w
      and now = exampleNow, THEN conjunct2, THEN conjunct1]
  note c = Versions_emission [where s = "child ''Version-details'' ''1 day ago''" and w = emptyWalk
      and now = exampleNow, THEN conjunct2, THEN conjunct2, THEN conjunct1]
  note d = Versions_emission [where now = exampleNow and baseURL = "''https://pkg.go.dev''"
      and visit = "\<lambda>u. Page [exampleChildren]" and pkg = "''p''" and e = None
      and r = "\<lparr>VersionsPackage = ''p'', VersionsList =
        [\<lparr>MajorVersion = ''v1'', FullVersion = ''v1.2.0'', Date = ''2024-03-01''\<rparr>,
         \<lparr>MajorVersion = ''v1'', FullVersion = ''v1.3.0'', Date = ''2024-02-29''\<rparr>]\<rparr>",
      THEN conjunct2, THEN conjunct2, THEN conjunct2, THEN conjunct2]
  from a have 1: "versions (Each_callback exampleNow (child ''Version-tag'' ''v1.2.0'') emptyWalk) = []"
    by (simp add: emptyWalk_def)
  from b have 23: "versions (Each_callback exampleNow (child ''Version-commitTime'' ''today'') ?w)
      = [\<lparr>MajorVersion = ''v1'', FullVersion = ''v1.2.0'', Date = ''2024-03-01''\<rparr>]
    \<and> curVersion (Each_callback exampleNow (child ''Version-commitTime'' ''today'') ?w) = zeroVersion"
    by (simp add: normalizeTime_exampleNow_today major_phase_def tag_phase_def emptyWalk_def)
  from c have 4: "versions (Each_callback exampleNow (child ''Version-details'' ''1 day ago'') emptyWalk)
      = [\<lparr>MajorVersion = [], FullVersion = [], Date = ''2024-02-29''\<rparr>]"
    by (simp add: normalizeTime_exampleNow_1_day major_phase_def tag_phase_def emptyWalk_def
        zeroVersion_def)
  from d have 5: "(\<exists>x. normalizeTime exampleNow x = Inr ''2024-03-01'')
      \<and> (\<exists>x. normalizeTime exampleNow x = Inr ''2024-02-29'')"
    using Versions_exampleChildren by simp
  from 1 23 4 5 show ?thesis by blast
qed

text \<open>
  Claim C1 as it is written fails: a list whose only child is a \<^verbatim>\<open>Version-commitTime\<close> label
  yields a record whose \<open>FullVersion\<close> is empty.
\<close>

theorem Versions_emission_counterexample:
  "Versions exampleNow ''https://pkg.go.dev''
      (\<lambda>u. Page [[child ''Version-commitTime'' ''today'']]) ''p''
    = (Some \<lparr>VersionsPackage = ''p'', VersionsList =
          [\<lparr>MajorVersion = [], FullVersion = [], Date = ''2024-03-01''\<rparr>]\<rparr>, None)"
  by (simp add: Versions_def Versions_list_callback_def Let_def Each_callback_child_commitTime
      normalizeTime_exampleNow_today emit_def emptyWalk_def zeroVersion_def)

text \<open>
  Claim C6. A child of class \<^verbatim>\<open>Version-major\<close> with a text that is not blank sets the sticky
  \<open>curMajorVersion\<close>, and the record in progress receives the sticky value in any case, the
  previous one when the text is blank. Nothing else changes the sticky value: it is the same
  after every other child, also one that appends a record, so a group under a blank label
  that follows any other groups of the list appends a record with the value that was current
  before it. Children without a terminal class at the end of a \<^verbatim>\<open>.Versions-list\<close> element leave
  no trace in the output: the record in progress is dropped at the end of the element,
  wherever the element stands on the page, \<open>Versions\<close> returns what it returns without them,
  and the callback of the next element does not depend on the record and the sticky value
  that were left.
\<close>

theorem Versions_major_sticky_and_discard:
  "(hasClass s ''Version-major'' \<longrightarrow>
      curMajorVersion (major_phase s w)
        = (if trimSpace (nodeText s) \<noteq> [] then trimSpace (nodeText s) else curMajorVersion w)
      \<and> MajorVersion (curVersion (major_phase s w)) = curMajorVersion (major_phase s w))
   \<and> (hasClass s ''Version-major'' \<and> \<not> hasClass s ''Version-commitTime''
       \<and> \<not> hasClass s ''Version-details'' \<longrightarrow>
      curMajorVersion (Each_callback now s w)
        = (if trimSpace (nodeText s) \<noteq> [] then trimSpace (nodeText s) else curMajorVersion w)
      \<and> MajorVersion (curVersion (Each_callback now s w)) = curMajorVersion (Each_callback now s w))
   \<and> curMajorVersion (Each_callback now c w)
        = (if hasClass c ''Version-major'' \<and> trimSpace (nodeText c) \<noteq> []
           then trimSpace (nodeText c) else curMajorVersion w)
   \<and> (trimSpace b = [] \<and> normalizeTime now (trimSpace t) = Inr d \<longrightarrow>
        versions (fold (Each_callback now)
            [child ''Version-major'' b, child ''Version-tag'' v, child ''Version-commitTime'' t] w)
          = versions w @ [\<lparr>MajorVersion = curMajorVersion w, FullVersion = v, Date = d\<rparr>]
        \<and> curMajorVersion (fold (Each_callback now)
            [child ''Version-major'' b, child ''Version-tag'' v, child ''Version-commitTime'' t] w)
          = curMajorVersion w)
   \<and> ((\<forall>n\<in>set ms. \<not> hasClass n ''Version-commitTime'' \<and> \<not> hasClass n ''Version-details'') \<longrightarrow>
        versions (fold (Each_callback now) (ns @ ms) w) = versions (fold (Each_callback now) ns w)
        \<and> Versions now baseURL (\<lambda>u. Page (elems @ [ns @ ms] @ elems')) pkg
            = Versions now baseURL (\<lambda>u. Page (elems @ [ns] @ elems')) pkg)
   \<and> Versions_list_callback now cs (w\<lparr>curVersion := cv, curMajorVersion := cmv\<rparr>)
        = Versions_list_callback now cs w"
proof -
  have 1: "hasClass s ''Version-major'' \<longrightarrow>
      curMajorVersion (major_phase s w)
        = (if trimSpace (nodeText s) \<noteq> [] then trimSpace (nodeText s) else curMajorVersion w)
      \<and> MajorVersion (curVersion (major_phase s w)) = curMajorVersion (major_phase s w)"
    by (simp add: major_phase_def Let_def)
  have 2: "hasClass s ''Version-major'' \<and> \<not> hasClass s ''Version-commitTime''
       \<and> \<not> hasClass s ''Version-details'' \<longrightarrow>
      curMajorVersion (Each_callback now s w)
        = (if trimSpace (nodeText s) \<noteq> [] then trimSpace (nodeText s) else curMajorVersion w)
      \<and> MajorVersion (curVersion (Each_callback now s w)) = curMajorVersion (Each_callback now s w)"
    using 1 by (simp add: Each_callback_no_terminal)
  have 3: "curMajorVersion (Each_callback now c w)
        = (if hasClass c ''Version-major'' \<and> trimSpace (nodeText c) \<noteq> []
           then trimSpace (nodeText c) else curMajorVersion w)"
    by (rule Each_callback_curMajorVersion)
  have 4: "trimSpace b = [] \<and> normalizeTime now (trimSpace t) = Inr d \<longrightarrow>
        versions (fold (Each_callback now)
            [child ''Version-major'' b, child ''Version-tag'' v, child ''Version-commitTime'' t] w)
          = versions w @ [\<lparr>MajorVersion = curMajorVersion w, FullVersion = v, Date = d\<rparr>]
        \<and> curMajorVersion (fold (Each_callback now)
            [child ''Version-major'' b, child ''Version-tag'' v, child ''Version-commitTime'' t] w)
          = curMajorVersion w"
    using blank_group [of b now t d v w] by blast
  have 5: "(\<forall>n\<in>set ms. \<not> hasClass n ''Version-commitTime'' \<and> \<not> hasClass n ''Version-details'') \<longrightarrow>
        versions (fold (Each_callback now) (ns @ ms) w) = versions (fold (Each_callback now) ns w)
        \<and> Versions now baseURL (\<lambda>u. Page (elems @ [ns @ ms] @ elems')) pkg
            = Versions now baseURL (\<lambda>u. Page (elems @ [ns] @ elems')) pkg"
    using fold_no_terminal [of ms now "fold (Each_callback now) ns w"]
      Versions_pending_discarded [of ms now baseURL elems ns elems' pkg]
    by simp
  have 6: "Versions_list_callback now cs (w\<lparr>curVersion := cv, curMajorVersion := cmv\<rparr>)
        = Versions_list_callback now cs w"
    by (rule Versions_list_callback_fresh)
  from 1 2 3 4 5 6 show ?thesis by (intro conjI)
qed

text \<open>
  A blank label inherits \<^verbatim>\<open>v1\<close>, a date leaves \<^verbatim>\<open>v1\<close> current, and a second group under a blank
  label is appended with \<^verbatim>\<open>v1\<close>. On a page of two lists, the trailing label \<^verbatim>\<open>v2\<close> of the first
  list is discarded: it is not in the output and not in the record of the second list.
\<close>

theorem Versions_major_sticky_and_discard_witness:
  "curMajorVersion (Each_callback exampleNow (child ''Version-major'' blankLabel)
      (emptyWalk\<lparr>curMajorVersion := ''v1''\<rparr>)) = ''v1''
   \<and> MajorVersion (curVersion (Each_callback exampleNow (child ''Version-major'' blankLabel)
      (emptyWalk\<lparr>curMajorVersion := ''v1''\<rparr>))) = ''v1''
   \<and> curMajorVersion (Each_callback exampleNow (child ''Version-major'' ''v2'')
      (emptyWalk\<lparr>curMajorVersion := ''v1''\<rparr>)) = ''v2''
   \<and> curMajorVersion (Each_callback exampleNow (child ''Version-commitTime'' ''today'')
      (emptyWalk\<lparr>curMajorVersion := ''v1''\<rparr>)) = ''v1''
   \<and> versions (fold (Each_callback exampleNow)
        [child ''Version-major'' blankLabel, child ''Version-tag'' ''v1.3.0'',
         child ''Version-commitTime'' ''1 day ago''] (emptyWalk\<lparr>curMajorVersion := ''v1''\<rparr>))
      = [\<lparr>MajorVersion = ''v1'', FullVersion = ''v1.3.0'', Date = ''2024-02-29''\<rparr>]
   \<and> Versions exampleNow ''https://pkg.go.dev''
        (\<lambda>u. Page [take 6 exampleChildren,
                    [child ''Version-tag'' ''v0.9.0'', child ''Version-commitTime'' ''today'']]) ''p''
      = (Some \<lparr>VersionsPackage = ''p'', VersionsList =
          [\<lparr>MajorVersion = ''v1'', FullVersion = ''v1.2.0'', Date = ''2024-03-01''\<rparr>,
           \<lparr>MajorVersion = ''v1'', FullVersion = ''v1.3.0'', Date = ''2024-02-29''\<rparr>,
           \<lparr>MajorVersion = [], FullVersion = ''v0.9.0'', Date = ''2024-03-01''\<rparr>]\<rparr>, None)"
proof -
  let ?w = "emptyWalk\<lparr>curMajorVersion := ''v1''\<rparr>"
  let ?second = "[child ''Version-tag'' ''v0.9.0'', child ''Version-commitTime'' ''today'']"
  note a = Versions_major_sticky_and_discard [where s = "child ''Version-major'' blankLabel"
      and w = ?w and now = exampleNow, THEN conjunct2, THEN conjunct1]
  note b = Versions_major_sticky_and_discard [where s = "child ''Version-major'' ''v2''" and w = ?w
      and now = exampleNow, THEN conjunct2, THEN conjunct1]
  note c = Versions_major_sticky_and_discard [where c = "child ''Version-commitTime'' ''today''"
      and w = ?w and now = exampleNow, THEN conjunct2, THEN conjunct2, THEN conjunct1]
  note g = Versions_major_sticky_and_discard [where b = blankLabel and t = "''1 day ago''"
      and d = "''2024-02-29''" and v = "''v1.3.0''" and w = ?w and now = exampleNow,
      THEN conjunct2, THEN conjunct2, THEN conjunct2, THEN conjunct1]
  note p = Versions_major_sticky_and_discard [where ms = "[child ''Version-major'' ''v2'']"
      and ns = "take 6 exampleChildren" and elems = "[]" and elems' = "[?second]"
      and now = exampleNow and baseURL = "''https://pkg.go.dev''" and pkg = "''p''",
      THEN conjunct2, THEN conjunct2, THEN conjunct2, THEN conjunct2, THEN conjunct1]
  have h: "hasClass (child ''Version-major'' t) ''Version-major''
      \<and> \<not> hasClass (child ''Version-major'' t) ''Version-commitTime''
      \<and> \<not> hasClass (child ''Version-major'' t) ''Version-details''" for t
    by simp
  have e: "take 6 exampleChildren @ [child ''Version-major'' ''v2''] = exampleChildren"
    by (simp add: exampleChildren_def)
  from a h have 1: "curMajorVersion (Each_callback exampleNow (child ''Version-major'' blankLabel) ?w)
      = ''v1''"
    by (simp add: emptyWalk_def trimSpace_blankLabel)
  from a h 1 have 2: "MajorVersion (curVersion (Each_callback exampleNow
      (child ''Version-major'' blankLabel) ?w)) = ''v1''"
    by simp
  from b h have 3: "curMajorVersion (Each_callback exampleNow (child ''Version-major'' ''v2'') ?w)
      = ''v2''"
    by simp
  from c have 4: "curMajorVersion (Each_callback exampleNow (child ''Version-commitTime'' ''today'') ?w)
      = ''v1''"
    by (simp add: emptyWalk_def)
  have gh: "trimSpace blankLabel = [] \<and> normalizeTime exampleNow (trimSpace ''1 day ago'') = Inr ''2024-02-29''"
    by (simp add: trimSpace_blankLabel normalizeTime_exampleNow_1_day)
  from g gh have 5: "versions (fold (Each_callback exampleNow)
        [child ''Version-major'' blankLabel, child ''Version-tag'' ''v1.3.0'',
         child ''Version-commitTime'' ''1 day ago''] ?w)
      = [\<lparr>MajorVersion = ''v1'', FullVersion = ''v1.3.0'', Date = ''2024-02-29''\<rparr>]"
    by (simp add: emptyWalk_def)
  from p h have "Versions exampleNow ''https://pkg.go.dev''
        (\<lambda>u. Page [take 6 exampleChildren, ?second]) ''p''
      = Versions exampleNow ''https://pkg.go.dev'' (\<lambda>u. Page [exampleChildren, ?second]) ''p''"
    by (simp add: e)
  then have 6: "Versions exampleNow ''https://pkg.go.dev''
        (\<lambda>u. Page [take 6 exampleChildren, ?second]) ''p''
      = (Some \<lparr>VersionsPackage = ''p'', VersionsList =
          [\<lparr>MajorVersion = ''v1'', FullVersion = ''v1.2.0'', Date = ''2024-03-01''\<rparr>,
           \<lparr>MajorVersion = ''v1'', FullVersion = ''v1.3.0'', Date = ''2024-02-29''\<rparr>,
           \<lparr>MajorVersion = [], FullVersion = ''v0.9.0'', Date = ''2024-03-01''\<rparr>]\<rparr>, None)"
    by (simp only: Versions_twoLists)
  from 1 2 3 4 5 6 show ?thesis by (intro conjI)
qed
section \<open>Properties of Search\<close>

lemma snippet_callback_length:
  "length (results (snippet_callback now limit s st)) =
     (if limit \<le> int (length (results st)) then length (results st)
      else Suc (length (results st)))"
  by (simp add: snippet_callback_def Let_def)

lemma snippet_callback_visited [simp]:
  "visited (snippet_callback now limit s st) = visited st"
  by (simp add: snippet_callback_def Let_def)

lemma snippet_callback_full:
  "limit \<le> int (length (results st)) \<Longrightarrow> results (snippet_callback now limit s st) = results st"
  by (simp add: snippet_callback_def)

lemma snippet_callback_bound:
  "int (length (results st)) \<le> max 0 limit
   \<Longrightarrow> int (length (results (snippet_callback now limit s st))) \<le> max 0 limit"
  by (simp add: snippet_callback_length)

lemma fold_snippet_callback_bound:
  "int (length (results st)) \<le> max 0 limit
   \<Longrightarrow> int (length (results (fold (snippet_callback now limit) snippets st))) \<le> max 0 limit"
  by (induction snippets arbitrary: st) (simp_all add: snippet_callback_bound)

lemma fold_snippet_callback_full:
  "limit \<le> int (length (results st))
   \<Longrightarrow> results (fold (snippet_callback now limit) snippets st) = results st"
  by (induction snippets arbitrary: st) (simp_all add: snippet_callback_full)

lemma fold_snippet_callback_visited [simp]:
  "visited (fold (snippet_callback now limit) snippets st) = visited st"
  by (induction snippets arbitrary: st) simp_all

lemma SearchResults_callback_bound:
  "int (length (results st)) \<le> max 0 limit
   \<Longrightarrow> int (length (results (SearchResults_callback now limit snippets st))) \<le> max 0 limit"
  by (simp add: SearchResults_callback_def fold_snippet_callback_bound)

lemma SearchResults_callback_visited [simp]:
  "visited (SearchResults_callback now limit snippets st) = visited st"
  by (simp add: SearchResults_callback_def)

lemma fold_SearchResults_callback_bound:
  "int (length (results st)) \<le> max 0 limit
   \<Longrightarrow> int (length (results (fold (SearchResults_callback now limit) elems st))) \<le> max 0 limit"
  by (induction elems arbitrary: st) (simp_all add: SearchResults_callback_bound)

lemma fold_SearchResults_callback_visited [simp]:
  "visited (fold (SearchResults_callback now limit) elems st) = visited st"
  by (induction elems arbitrary: st) simp_all

lemma search_loop_stop:
  "\<not> (shouldContinue st \<and> int (length (results st)) < limit)
   \<Longrightarrow> search_loop now limit visit baseURL query page st = st"
  by (subst search_loop.simps) (simp only: if_False)

lemma search_loop_Refused:
  "shouldContinue st \<and> int (length (results st)) < limit
   \<Longrightarrow> visit (search_url baseURL query page) = Refused e
   \<Longrightarrow> search_loop now limit visit baseURL query page st =
         st\<lparr>errList := errList st @ [ErrVisitingPage page e], visited := visited st @ [page]\<rparr>"
  by (subst search_loop.simps) simp

lemma search_loop_Failed:
  "shouldContinue st \<and> int (length (results st)) < limit
   \<Longrightarrow> visit (search_url baseURL query page) = Failed status e
   \<Longrightarrow> search_loop now limit visit baseURL query page st =
         st\<lparr>errList := errList st @ [ErrFetching (search_url baseURL query page) e,
                                     ErrVisitingPage page e],
            shouldContinue := False, visited := visited st @ [page]\<rparr>"
  by (subst search_loop.simps) simp

lemma search_loop_last:
  "shouldContinue st \<and> int (length (results st)) < limit
   \<Longrightarrow> visit (search_url baseURL query page) = Page elems \<Longrightarrow> 10 < page + 1
   \<Longrightarrow> search_loop now limit visit baseURL query page st =
         fold (SearchResults_callback now limit) elems (st\<lparr>visited := visited st @ [page]\<rparr>)"
  by (subst search_loop.simps) simp

lemma search_loop_next:
  "shouldContinue st \<and> int (length (results st)) < limit
   \<Longrightarrow> visit (search_url baseURL query page) = Page elems \<Longrightarrow> \<not> 10 < page + 1
   \<Longrightarrow> search_loop now limit visit baseURL query page st =
         search_loop now limit visit baseURL query (page + 1)
           (fold (SearchResults_callback now limit) elems (st\<lparr>visited := visited st @ [page]\<rparr>))"
  by (subst search_loop.simps) simp

lemma search_loop_bound:
  "int (length (results st)) \<le> max 0 limit
   \<Longrightarrow> int (length (results (search_loop now limit visit baseURL query page st))) \<le> max 0 limit"
proof (induction now limit visit baseURL query page st rule: search_loop.induct)
  case (1 now limit visit baseURL query page st)
  show ?case
  proof (cases "shouldContinue st \<and> int (length (results st)) < limit")
    case False
    show ?thesis using "1.prems" by (simp only: search_loop_stop [OF False])
  next
    case True
    show ?thesis
    proof (cases "visit (search_url baseURL query page)")
      case (Refused e)
      show ?thesis using "1.prems" by (simp add: search_loop_Refused [where visit = visit and now = now, OF True Refused])
    next
      case (Failed status e)
      show ?thesis using "1.prems" by (simp add: search_loop_Failed [where visit = visit and now = now, OF True Failed])
    next
      case (Page elems)
      let ?st = "fold (SearchResults_callback now limit) elems (st\<lparr>visited := visited st @ [page]\<rparr>)"
      have b: "int (length (results ?st)) \<le> max 0 limit"
        using "1.prems" by (intro fold_SearchResults_callback_bound) simp
      show ?thesis
      proof (cases "10 < page + 1")
        case True
        show ?thesis using b
          by (simp only: search_loop_last [where visit = visit and now = now, OF \<open>shouldContinue st \<and> int (length (results st)) < limit\<close> Page True])
      next
        case False
        show ?thesis
          using "1.IH" [OF \<open>shouldContinue st \<and> int (length (results st)) < limit\<close> Page False b]
          by (simp only: search_loop_next [where visit = visit and now = now, OF \<open>shouldContinue st \<and> int (length (results st)) < limit\<close> Page False])
      qed
    qed
  qed
qed

lemma search_loop_visited:
  "\<exists>k. visited (search_loop now limit visit baseURL query page st) = visited st @ [page ..< page + k]
       \<and> page + k \<le> max (page + 1) 11"
proof (induction now limit visit baseURL query page st rule: search_loop.induct)
  case (1 now limit visit baseURL query page st)
  show ?case
  proof (cases "shouldContinue st \<and> int (length (results st)) < limit")
    case False
    then have "search_loop now limit visit baseURL query page st = st"
      by (rule search_loop_stop)
    then show ?thesis by (intro exI [of _ 0]) simp
  next
    case True
    show ?thesis
    proof (cases "visit (search_url baseURL query page)")
      case (Refused e)
      have "visited (search_loop now limit visit baseURL query page st) = visited st @ [page]"
        by (simp add: search_loop_Refused [where visit = visit and now = now, OF True Refused])
      then show ?thesis by (intro exI [of _ 1]) simp
    next
      case (Failed status e)
      have "visited (search_loop now limit visit baseURL query page st) = visited st @ [page]"
        by (simp add: search_loop_Failed [where visit = visit and now = now, OF True Failed])
      then show ?thesis by (intro exI [of _ 1]) simp
    next
      case (Page elems)
      let ?st = "fold (SearchResults_callback now limit) elems (st\<lparr>visited := visited st @ [page]\<rparr>)"
      show ?thesis
      proof (cases "10 < page + 1")
        case True
        have "visited (search_loop now limit visit baseURL query page st) = visited st @ [page]"
          by (simp add: search_loop_last [where visit = visit and now = now, OF \<open>shouldContinue st \<and> int (length (results st)) < limit\<close> Page True])
        then show ?thesis by (intro exI [of _ 1]) simp
      next
        case False
        from "1.IH" [OF True Page False] obtain k where
          k: "visited (search_loop now limit visit baseURL query (page + 1) ?st)
                = visited ?st @ [page + 1 ..< page + 1 + k]" "page + 1 + k \<le> max (page + 1 + 1) 11"
          by blast
        from True Page False have
          "search_loop now limit visit baseURL query page st
             = search_loop now limit visit baseURL query (page + 1) ?st"
          by (rule search_loop_next [where visit = visit])
        with k have "visited (search_loop now limit visit baseURL query page st)
            = visited st @ [page ..< page + Suc k]"
          by (simp add: upt_rec [of page])
        moreover from k(2) False have "page + Suc k \<le> max (page + 1) 11" by simp
        ultimately show ?thesis by blast
      qed
    qed
  qed
qed

lemma legacySnippet_callback_bound:
  "0 \<le> limit \<Longrightarrow> int (length (legacyResults st)) \<le> limit
   \<Longrightarrow> int (length (legacyResults (legacySnippet_callback now limit e st))) \<le> limit"
  by (auto simp: legacySnippet_callback_def Let_def split: sum.splits option.splits)

lemma legacySnippet_callback_full:
  "int (length (legacyResults st)) = limit
   \<Longrightarrow> legacyResults (legacySnippet_callback now limit e st) = legacyResults st"
  by (simp add: legacySnippet_callback_def)

lemma fold_legacySnippet_callback_bound:
  "0 \<le> limit \<Longrightarrow> int (length (legacyResults st)) \<le> limit
   \<Longrightarrow> int (length (legacyResults (fold (legacySnippet_callback now limit) es st))) \<le> limit"
  by (induction es arbitrary: st) (simp_all add: legacySnippet_callback_bound)

lemma fold_legacySnippet_callback_full:
  "int (length (legacyResults st)) = limit
   \<Longrightarrow> legacyResults (fold (legacySnippet_callback now limit) es st) = legacyResults st"
  by (induction es arbitrary: st) (simp_all add: legacySnippet_callback_full)

lemma resultsTotal_callback_results:
  "resultsTotal_callback limit text st = Returns st' \<Longrightarrow> legacyResults st' = legacyResults st"
  by (auto simp: resultsTotal_callback_def Let_def split: if_splits option.splits)

lemma run_each_resultsTotal_results:
  "run_each (resultsTotal_callback limit) ts st = Returns st'
   \<Longrightarrow> legacyResults st' = legacyResults st"
proof (induction ts arbitrary: st)
  case Nil
  then show ?case by simp
next
  case (Cons t ts)
  then show ?case
    by (cases "resultsTotal_callback limit t st") (auto dest: resultsTotal_callback_results)
qed

lemma legacy_visit_bound:
  assumes "legacy_visit now limit resp st = Returns st'" "0 \<le> limit"
    "int (length (legacyResults st)) \<le> limit"
  shows "int (length (legacyResults st')) \<le> limit"
proof (cases resp)
  case (Refused e)
  with assms show ?thesis by (auto simp: legacy_visit_def)
next
  case (Failed status e)
  with assms show ?thesis by (auto simp: legacy_visit_def)
next
  case (Page p)
  with assms obtain st1 where
    st1: "run_each (resultsTotal_callback limit) (resultsTotal p) st = Returns st1"
    and st': "st' = fold (legacySnippet_callback now limit) (legacySnippets p) st1"
    by (auto simp: legacy_visit_def split: run.splits)
  from st1 have "legacyResults st1 = legacyResults st"
    by (rule run_each_resultsTotal_results)
  with assms(2,3) show ?thesis
    unfolding st' by (intro fold_legacySnippet_callback_bound) simp_all
qed

lemma legacy_loop_bound:
  fixes visit :: "string \<Rightarrow> legacyPage response"
  assumes run: "legacy_loop now limit visit baseURL query page st = Some (Returns (Some r, e))"
    and "0 \<le> limit" "int (length (legacyResults st)) \<le> limit"
  shows "int (length (Results r)) \<le> limit"
proof -
  define P where "P = (\<lambda>(now::Instant) limit (visit :: string \<Rightarrow> legacyPage response)
      (baseURL::string) (query::string) (page::nat) (st::legacySearch)
      (y :: (SearchResults option \<times> error list option) run).
      \<forall>r e. y = Returns (Some r, e) \<longrightarrow> 0 \<le> limit \<longrightarrow> int (length (legacyResults st)) \<le> limit
         \<longrightarrow> int (length (Results r)) \<le> limit)"
  have "P now limit visit baseURL query page st (Returns (Some r, e))"
  proof (rule legacy_loop.raw_induct [where P = P, OF _ run])
    fix f now limit and visit :: "string \<Rightarrow> legacyPage response" and baseURL query page st y
    assume IH: "\<And>now limit visit baseURL query page st y.
        f now limit visit baseURL query page st = Some y \<Longrightarrow> P now limit visit baseURL query page st y"
      and body: "(if morePages st then
        (case legacy_visit now limit (visit (legacy_url baseURL query page)) st of
           Panics err \<Rightarrow> Some (Panics err)
         | Returns st' \<Rightarrow>
             if 0 < length (legacyErrs st') then Some (Returns (None, Some (legacyErrs st')))
             else f now limit visit baseURL query (page + 1) st')
      else Some (Returns (Some \<lparr>Results = legacyResults st\<rparr>, None))) = Some y"
    show "P now limit visit baseURL query page st y"
      unfolding P_def
    proof (intro allI impI)
      fix r e
      assume y: "y = Returns (Some r, e)" and l: "0 \<le> limit"
        and b: "int (length (legacyResults st)) \<le> limit"
      show "int (length (Results r)) \<le> limit"
      proof (cases "morePages st")
        case False
        with body y b show ?thesis by auto
      next
        case True
        show ?thesis
        proof (cases "legacy_visit now limit (visit (legacy_url baseURL query page)) st")
          case (Panics err)
          with True body y show ?thesis by simp
        next
          case (Returns st')
          have b': "int (length (legacyResults st')) \<le> limit"
            using Returns l b by (rule legacy_visit_bound)
          show ?thesis
          proof (cases "0 < length (legacyErrs st')")
            case True
            with \<open>morePages st\<close> Returns body y show ?thesis by simp
          next
            case False
            with \<open>morePages st\<close> Returns body
            have "f now limit visit baseURL query (page + 1) st' = Some y" by simp
            from IH [OF this] y l b' show ?thesis unfolding P_def by blast
          qed
        qed
      qed
    qed
  qed
  with assms(2,3) show ?thesis unfolding P_def by blast
qed

lemma legacy_visit_noResults: "legacy_visit now limit (noResults url) st = Returns st"
  by (simp add: legacy_visit_def noResults_def resultsTotal_callback_def trimSpace_eval)

lemma legacy_loop_noResults_diverges:
  assumes "morePages st" "legacyErrs st = []"
  shows "legacy_loop now limit noResults baseURL query page st = None"
proof (rule ccontr)
  assume "legacy_loop now limit noResults baseURL query page st \<noteq> None"
  then obtain y where run: "legacy_loop now limit noResults baseURL query page st = Some y"
    by blast
  define P where "P = (\<lambda>(now::Instant) (limit::int) (visit :: string \<Rightarrow> legacyPage response)
      (baseURL::string) (query::string) (page::nat) (st::legacySearch)
      (y :: (SearchResults option \<times> error list option) run).
      \<not> (visit = noResults \<and> morePages st \<and> legacyErrs st = []))"
  have "P now limit noResults baseURL query page st y"
  proof (rule legacy_loop.raw_induct [where P = P, OF _ run])
    fix f now limit and visit :: "string \<Rightarrow> legacyPage response" and baseURL query page st
      and y :: "(SearchResults option \<times> error list option) run"
    assume IH: "\<And>now limit visit baseURL query page st y.
        f now limit visit baseURL query page st = Some y \<Longrightarrow> P now limit visit baseURL query page st y"
      and body: "(if morePages st then
        (case legacy_visit now limit (visit (legacy_url baseURL query page)) st of
           Panics err \<Rightarrow> Some (Panics err)
         | Returns st' \<Rightarrow>
             if 0 < length (legacyErrs st') then Some (Returns (None, Some (legacyErrs st')))
             else f now limit visit baseURL query (page + 1) st')
      else Some (Returns (Some \<lparr>Results = legacyResults st\<rparr>, None))) = Some y"
    show "P now limit visit baseURL query page st y"
      unfolding P_def
    proof
      assume a: "visit = noResults \<and> morePages st \<and> legacyErrs st = []"
      with body have "f now limit visit baseURL query (page + 1) st = Some y"
        by (simp add: legacy_visit_noResults)
      from IH [OF this] a show False unfolding P_def by blast
    qed
  qed
  with assms show False unfolding P_def by blast
qed

lemma parseInt_1234: "parseInt ''1234'' = Some 1234"
  by (simp add: parseInt_def decimal_def digitVal_def isDigit_def)

lemma snippet_callback_example:
  "name \<in> {''a'', ''b'', ''c''} \<Longrightarrow>
   snippet_callback exampleNow limit (exampleSnippet name) st =
     (if limit \<le> int (length (results st)) then st\<lparr>shouldContinue := False\<rparr>
      else st\<lparr>results := results st @ [exampleResult name]\<rparr>)"
proof -
  assume n: "name \<in> {''a'', ''b'', ''c''}"
  then have t: "trimSpace name = name"
    by (elim insertE emptyE) (simp_all add: trimSpace_eval)
  have s: "split_first ''v1.0.0 published on today'' '' published on '' = ''v1.0.0''" by simp
  have v: "trimSpace (trim ''v1.0.0'' [CHR '' '', CHR 0x09, CHR 0x0A, CHR 0x0D]) = ''v1.0.0''"
    by (simp add: trimSpace_eval trim_def)
  have i: "removeAll_byte (CHR '','') (trimSpace ''1,234'') = ''1234''"
    by (simp add: trimSpace_eval removeAll_byte_def)
  have m: "trimSpace ''MIT'' = ''MIT''" "trimSpace ''a package'' = ''a package''"
    by (simp_all add: trimSpace_eval)
  show ?thesis
    by (simp add: snippet_callback_def exampleSnippet_def exampleResult_def Let_def t s v i m
        parseInt_1234 normalizeTime_exampleNow_today)
qed

lemma Search_example:
  "Search exampleNow ''https://pkg.go.dev'' threePerPage ''q'' 2
     = (Some \<lparr>Results = [exampleResult ''a'', exampleResult ''b'']\<rparr>, None)"
proof -
  let ?st0 = "\<lparr>results = [], errList = [], shouldContinue = True, visited = []\<rparr>"
  let ?st1 = "\<lparr>results = [exampleResult ''a'', exampleResult ''b''], errList = [],
               shouldContinue = False, visited = [1]\<rparr>"
  have f: "fold (SearchResults_callback exampleNow 2)
             [[exampleSnippet ''a'', exampleSnippet ''b'', exampleSnippet ''c'']]
             (?st0\<lparr>visited := visited ?st0 @ [1]\<rparr>) = ?st1"
    by (simp add: SearchResults_callback_def snippet_callback_example)
  have "search_loop exampleNow 2 threePerPage ''https://pkg.go.dev'' ''q'' 1 ?st0
      = search_loop exampleNow 2 threePerPage ''https://pkg.go.dev'' ''q'' (1 + 1) ?st1"
    using search_loop_next [where visit = threePerPage and st = ?st0 and limit = 2 and page = 1
        and now = exampleNow and baseURL = "''https://pkg.go.dev''" and query = "''q''"
        and elems = "[[exampleSnippet ''a'', exampleSnippet ''b'', exampleSnippet ''c'']]"]
    by (simp only: f) (simp add: threePerPage_def)
  also have "\<dots> = ?st1" by (rule search_loop_stop) simp
  finally show ?thesis by (simp add: Search_def)
qed

lemma Search_negative_example:
  "Search exampleNow ''https://pkg.go.dev'' threePerPage ''q'' (- 1) = (Some \<lparr>Results = []\<rparr>, None)"
  by (simp add: Search_def search_loop_stop)

lemma split_exampleHeader: "split exampleHeader (CHR '' '') = [''1'', enDash, ''3'', ''of'', ''3'']"
  by (simp add: exampleHeader_def enDash_def)

lemma trimSpace_exampleHeader: "trimSpace exampleHeader = exampleHeader"
  by (simp add: trimSpace_eval exampleHeader_def enDash_def)

lemma resultsTotal_callback_example:
  "resultsTotal_callback limit exampleHeader st = Returns (st\<lparr>morePages := False\<rparr>)"
proof -
  have n: "exampleHeader \<noteq> ''0 results''" by (simp add: exampleHeader_def enDash_def)
  have p: "parseInt ''3'' = Some 3" by (rule parseInt_3)
  show ?thesis
    unfolding resultsTotal_callback_def trimSpace_exampleHeader Let_def
    by (simp only: n if_False split_exampleHeader) (simp add: p)
qed

lemma legacySnippet_callback_example:
  "legacySnippet_callback exampleNow limit exampleLegacySnippet st =
     (if int (length (legacyResults st)) = limit then st
      else st\<lparr>legacyResults := legacyResults st @ [exampleResult ''a'']\<rparr>)"
proof -
  have i: "removeAll_byte (CHR '','') (trimSpace ''1,234'') = ''1234''"
    by (simp add: trimSpace_eval removeAll_byte_def)
  have m: "trimSpace ''MIT'' = ''MIT''" "trimSpace ''a package'' = ''a package''"
    "trimSpace ''a'' = ''a''" "trimSpace ''v1.0.0'' = ''v1.0.0''"
    by (simp_all add: trimSpace_eval)
  show ?thesis
    by (simp add: legacySnippet_callback_def exampleLegacySnippet_def exampleResult_def Let_def
        i m parseInt_1234 normalizeTime_exampleNow_today)
qed

lemma legacy_visit_example:
  "legacy_visit exampleNow limit (threeOfThree url) st =
     Returns (fold (legacySnippet_callback exampleNow limit)
        [exampleLegacySnippet, exampleLegacySnippet, exampleLegacySnippet] (st\<lparr>morePages := False\<rparr>))"
  by (simp add: legacy_visit_def threeOfThree_def resultsTotal_callback_example)

lemma legacy_loop_stop:
  "\<not> morePages st \<Longrightarrow> legacy_loop now limit visit baseURL query page st
      = Some (Returns (Some \<lparr>Results = legacyResults st\<rparr>, None))"
  by (subst legacy_loop.simps) simp

lemma Search_legacy_example:
  "Search_legacy exampleNow ''https://pkg.go.dev'' threeOfThree ''q'' 2
     = Some (Returns (Some \<lparr>Results = [exampleResult ''a'', exampleResult ''a'']\<rparr>, None))"
  unfolding Search_legacy_def
  by (subst legacy_loop.simps)
     (simp add: legacy_visit_example legacySnippet_callback_example legacy_loop_stop)

lemma Search_legacy_negative_example:
  "Search_legacy exampleNow ''https://pkg.go.dev'' threeOfThree ''q'' (- 1)
     = Some (Returns (Some \<lparr>Results = [exampleResult ''a'', exampleResult ''a'',
          exampleResult ''a'']\<rparr>, None))"
  unfolding Search_legacy_def
  by (subst legacy_loop.simps)
     (simp add: legacy_visit_example legacySnippet_callback_example legacy_loop_stop)

lemma Search_visited_ceiling:
  "\<exists>k\<le>10. visited (search_loop now limit visit baseURL query 1
      \<lparr>results = [], errList = [], shouldContinue = True, visited = []\<rparr>) = [1 ..< 1 + k]"
proof -
  obtain k where k: "visited (search_loop now limit visit baseURL query 1
      \<lparr>results = [], errList = [], shouldContinue = True, visited = []\<rparr>)
        = visited \<lparr>results = [], errList = [], shouldContinue = True, visited = []\<rparr> @ [1 ..< 1 + k]"
      "1 + k \<le> max (1 + 1) 11"
    using search_loop_visited by blast
  then have "k \<le> 10" by simp
  with k(1) show ?thesis by auto
qed

lemma trimSpace_shortHeader: "trimSpace shortHeader = shortHeader"
  by (simp add: trimSpace_eval shortHeader_def enDash_def)

lemma split_shortHeader: "split shortHeader (CHR '' '') = [''1'', enDash, ''10'']"
  by (simp add: shortHeader_def enDash_def)

text \<open>
  Claim C2, as the code has it. For every query and every limit that is not negative, the
  sequence of results that \<open>Search\<close> returns has at most \<open>limit\<close> elements, in the current
  \<open>Search\<close> and in the legacy one; for a negative limit the current \<open>Search\<close> returns the
  empty sequence. On a page, once the running total has reached \<open>limit\<close>, the callbacks for
  the remaining snippets append nothing.
\<close>

theorem Search_results_bounded:
  "(Search now baseURL visit query limit = (Some r, e) \<longrightarrow>
      (0 \<le> limit \<longrightarrow> int (length (Results r)) \<le> limit) \<and> (limit < 0 \<longrightarrow> Results r = []))
   \<and> (0 \<le> limit \<and> Search_legacy now baseURL lvisit query limit = Some (Returns (Some lr, le)) \<longrightarrow>
        int (length (Results lr)) \<le> limit)
   \<and> (limit \<le> int (length (results st)) \<longrightarrow>
        results (fold (snippet_callback now limit) snippets st) = results st)
   \<and> (int (length (legacyResults lst)) = limit \<longrightarrow>
        legacyResults (fold (legacySnippet_callback now limit) es lst) = legacyResults lst)"
proof -
  let ?st0 = "\<lparr>results = [], errList = [], shouldContinue = True, visited = []\<rparr>"
  have b: "int (length (results (search_loop now limit visit baseURL query 1 ?st0))) \<le> max 0 limit"
    by (rule search_loop_bound) simp
  have 1: "Search now baseURL visit query limit = (Some r, e) \<longrightarrow>
      (0 \<le> limit \<longrightarrow> int (length (Results r)) \<le> limit) \<and> (limit < 0 \<longrightarrow> Results r = [])"
  proof
    assume "Search now baseURL visit query limit = (Some r, e)"
    then have "Results r = results (search_loop now limit visit baseURL query 1 ?st0)"
      by (auto simp: Search_def Let_def split: if_splits)
    with b show "(0 \<le> limit \<longrightarrow> int (length (Results r)) \<le> limit) \<and> (limit < 0 \<longrightarrow> Results r = [])"
      by auto
  qed
  have 2: "0 \<le> limit \<and> Search_legacy now baseURL lvisit query limit = Some (Returns (Some lr, le)) \<longrightarrow>
        int (length (Results lr)) \<le> limit"
    unfolding Search_legacy_def using legacy_loop_bound [of now limit lvisit baseURL query 1 _ lr le]
    by auto
  have 3: "limit \<le> int (length (results st)) \<longrightarrow>
        results (fold (snippet_callback now limit) snippets st) = results st"
    by (simp add: fold_snippet_callback_full)
  have 4: "int (length (legacyResults lst)) = limit \<longrightarrow>
        legacyResults (fold (legacySnippet_callback now limit) es lst) = legacyResults lst"
    by (simp add: fold_legacySnippet_callback_full)
  from 1 2 3 4 show ?thesis by (intro conjI)
qed

text \<open>With two results asked for and three on the page, two are returned.\<close>

theorem Search_results_bounded_witness:
  "Search exampleNow ''https://pkg.go.dev'' threePerPage ''q'' 2
     = (Some \<lparr>Results = [exampleResult ''a'', exampleResult ''b'']\<rparr>, None)
   \<and> int (length [exampleResult ''a'', exampleResult ''b'']) \<le> 2
   \<and> Search_legacy exampleNow ''https://pkg.go.dev'' threeOfThree ''q'' 2
     = Some (Returns (Some \<lparr>Results = [exampleResult ''a'', exampleResult ''a'']\<rparr>, None))
   \<and> int (length [exampleResult ''a'', exampleResult ''a'']) \<le> 2
   \<and> results (fold (snippet_callback exampleNow 2) [exampleSnippet ''c'']
         \<lparr>results = [exampleResult ''a'', exampleResult ''b''], errList = [],
          shouldContinue = True, visited = [1]\<rparr>) = [exampleResult ''a'', exampleResult ''b'']
   \<and> legacyResults (fold (legacySnippet_callback exampleNow 2) [exampleLegacySnippet]
         \<lparr>legacyResults = [exampleResult ''a'', exampleResult ''a''], legacyErrs = [],
          morePages = False\<rparr>) = [exampleResult ''a'', exampleResult ''a'']"
proof -
  let ?r = "\<lparr>Results = [exampleResult ''a'', exampleResult ''b'']\<rparr>"
  let ?lr = "\<lparr>Results = [exampleResult ''a'', exampleResult ''a'']\<rparr>"
  let ?st = "\<lparr>results = [exampleResult ''a'', exampleResult ''b''], errList = [],
          shouldContinue = True, visited = [1]\<rparr>"
  let ?lst = "\<lparr>legacyResults = [exampleResult ''a'', exampleResult ''a''], legacyErrs = [],
          morePages = False\<rparr>"
  note th = Search_results_bounded [where now = exampleNow and baseURL = "''https://pkg.go.dev''"
      and visit = threePerPage and lvisit = threeOfThree and query = "''q''" and limit = 2
      and r = ?r and e = None and lr = ?lr and le = None and st = ?st and lst = ?lst
      and snippets = "[exampleSnippet ''c'']" and es = "[exampleLegacySnippet]"]
  note c1 = th [THEN conjunct1]
  note c2 = th [THEN conjunct2, THEN conjunct1]
  note c3 = th [THEN conjunct2, THEN conjunct2, THEN conjunct1]
  note c4 = th [THEN conjunct2, THEN conjunct2, THEN conjunct2]
  note 1 = Search_example
  from c1 1 have 2: "int (length [exampleResult ''a'', exampleResult ''b'']) \<le> 2" by simp
  note 3 = Search_legacy_example
  from c2 3 have 4: "int (length [exampleResult ''a'', exampleResult ''a'']) \<le> 2" by simp
  from c3 have 5: "results (fold (snippet_callback exampleNow 2) [exampleSnippet ''c''] ?st)
      = [exampleResult ''a'', exampleResult ''b'']" by simp
  from c4 have 6: "legacyResults (fold (legacySnippet_callback exampleNow 2) [exampleLegacySnippet] ?lst)
      = [exampleResult ''a'', exampleResult ''a'']" by simp
  from 1 2 3 4 5 6 show ?thesis by (intro conjI)
qed

text \<open>
  Claim C2 as it is written fails for a negative limit: the current \<open>Search\<close> returns the
  empty sequence, whose length 0 is not at most -1 (and the legacy \<open>Search\<close>, which compares
  with \<open>==\<close>, returns every snippet of the page).
\<close>

theorem Search_results_bounded_counterexample:
  "Search exampleNow ''https://pkg.go.dev'' threePerPage ''q'' (- 1) = (Some \<lparr>Results = []\<rparr>, None)
   \<and> \<not> int (length ([] :: SearchResult list)) \<le> - 1
   \<and> Search_legacy exampleNow ''https://pkg.go.dev'' threeOfThree ''q'' (- 1)
     = Some (Returns (Some \<lparr>Results = [exampleResult ''a'', exampleResult ''a'',
          exampleResult ''a'']\<rparr>, None))"
  using Search_negative_example Search_legacy_negative_example by simp

text \<open>
  Claim C3 holds for the loop of the current \<open>Search\<close>, which is total and visits the pages
  1 to at most 10 (lemma \<open>Search_visited_ceiling\<close>). The loop of the legacy \<open>Search\<close> has no
  ceiling: on a site that answers every page with the header \<^verbatim>\<open>0 results\<close>, as for a query
  that finds nothing, the callback returns before it clears \<open>morePages\<close>, no error is recorded,
  and the loop asks for page after page: the legacy \<open>Search\<close> never returns.
\<close>

theorem Search_legacy_never_returns:
  "Search_legacy now baseURL noResults query limit = None"
  unfolding Search_legacy_def by (rule legacy_loop_noResults_diverges) simp_all

text \<open>
  Claim C10. The callback of the legacy \<open>Search\<close> for the header of the results is not total:
  when the text of the header, trimmed and other than \<^verbatim>\<open>0 results\<close>, splits at its spaces into
  three or four words of which the third is a number, the read of \<open>resultsSplit[4]\<close> is past
  the end of the slice and the callback panics; and so does \<open>Search\<close> when the first page
  begins with such a header.
\<close>

theorem resultsTotal_callback_panics:
  "trimSpace text \<noteq> ''0 results''
   \<Longrightarrow> length (split (trimSpace text) (CHR '' '')) = 3 \<or> length (split (trimSpace text) (CHR '' '')) = 4
   \<Longrightarrow> parseInt (split (trimSpace text) (CHR '' '') ! 2) \<noteq> None
   \<Longrightarrow> resultsTotal_callback limit text st = Panics IndexOutOfRange
       \<and> (visit (legacy_url baseURL query 1) = Page p \<and> resultsTotal p = text # texts \<longrightarrow>
            Search_legacy now baseURL visit query limit = Some (Panics IndexOutOfRange))"
proof -
  assume a: "trimSpace text \<noteq> ''0 results''"
    "length (split (trimSpace text) (CHR '' '')) = 3 \<or> length (split (trimSpace text) (CHR '' '')) = 4"
    "parseInt (split (trimSpace text) (CHR '' '') ! 2) \<noteq> None"
  from a have 1: "resultsTotal_callback limit text st = Panics IndexOutOfRange" for st
    by (auto simp: resultsTotal_callback_def Let_def)
  have 2: "visit (legacy_url baseURL query 1) = Page p \<and> resultsTotal p = text # texts \<longrightarrow>
            Search_legacy now baseURL visit query limit = Some (Panics IndexOutOfRange)"
  proof
    assume v: "visit (legacy_url baseURL query 1) = Page p \<and> resultsTotal p = text # texts"
    then have "legacy_visit now limit (visit (legacy_url baseURL query 1))
        \<lparr>legacyResults = [], legacyErrs = [], morePages = True\<rparr> = Panics IndexOutOfRange"
      by (simp add: legacy_visit_def 1)
    then show "Search_legacy now baseURL visit query limit = Some (Panics IndexOutOfRange)"
      unfolding Search_legacy_def by (subst legacy_loop.simps) simp
  qed
  from 1 2 show ?thesis by blast
qed

text \<open>The header \<^verbatim>\<open>1 - 10\<close>, written with an en dash, has three words.\<close>

theorem resultsTotal_callback_panics_witness:
  "trimSpace shortHeader \<noteq> ''0 results''
   \<and> split (trimSpace shortHeader) (CHR '' '') = [''1'', enDash, ''10'']
   \<and> parseInt ''10'' = Some 10
   \<and> resultsTotal_callback 5 shortHeader \<lparr>legacyResults = [], legacyErrs = [], morePages = True\<rparr>
        = Panics IndexOutOfRange
   \<and> Search_legacy exampleNow ''https://pkg.go.dev''
        (\<lambda>url. Page \<lparr>resultsTotal = [shortHeader], legacySnippets = []\<rparr>) ''q'' 5
        = Some (Panics IndexOutOfRange)"
proof -
  have 1: "trimSpace shortHeader \<noteq> ''0 results''"
    by (simp add: trimSpace_shortHeader) (simp add: shortHeader_def enDash_def)
  have 2: "split (trimSpace shortHeader) (CHR '' '') = [''1'', enDash, ''10'']"
    by (simp add: trimSpace_shortHeader split_shortHeader)
  have 3: "parseInt ''10'' = Some 10"
    by (simp add: parseInt_def decimal_def digitVal_def isDigit_def)
  from 2 have l: "length (split (trimSpace shortHeader) (CHR '' '')) = 3
      \<or> length (split (trimSpace shortHeader) (CHR '' '')) = 4" by simp
  from 2 3 have p: "parseInt (split (trimSpace shortHeader) (CHR '' '') ! 2) \<noteq> None" by simp
  note th = resultsTotal_callback_panics [OF 1 l p, where limit = 5 and now = exampleNow
      and st = "\<lparr>legacyResults = [], legacyErrs = [], morePages = True\<rparr>"
      and visit = "\<lambda>url. Page \<lparr>resultsTotal = [shortHeader], legacySnippets = []\<rparr>"
      and baseURL = "''https://pkg.go.dev''" and query = "''q''"
      and p = "\<lparr>resultsTotal = [shortHeader], legacySnippets = []\<rparr>" and texts = "[]"]
  from th have 4: "resultsTotal_callback 5 shortHeader
      \<lparr>legacyResults = [], legacyErrs = [], morePages = True\<rparr> = Panics IndexOutOfRange"
    by blast
  from th have 5: "Search_legacy exampleNow ''https://pkg.go.dev''
        (\<lambda>url. Page \<lparr>resultsTotal = [shortHeader], legacySnippets = []\<rparr>) ''q'' 5
        = Some (Panics IndexOutOfRange)"
    by simp
  from 1 2 3 4 5 show ?thesis by (intro conjI)
qed

section \<open>Properties of DescribePackage\<close>

lemma titleHeading_callback_violation:
  "''package'' \<notin> set labels \<Longrightarrow> ''module'' \<notin> set labels
   \<Longrightarrow> \<not> IsPackage (dpkg st) \<Longrightarrow> \<not> IsModule (dpkg st)
   \<Longrightarrow> titleHeading_callback name labels st = st\<lparr>derrs := derrs st @ [ErrIsPackageFalse name]\<rparr>"
  by (induction labels) auto

lemma badges_kind:
  "IsPackage (badges i lis p) = IsPackage p \<and> IsModule (badges i lis p) = IsModule p"
  by (induction lis arbitrary: i p) auto

lemma early_callbacks_kind:
  "IsPackage (dpkg (version_callback x st)) = IsPackage (dpkg st)"
  "IsModule (dpkg (version_callback x st)) = IsModule (dpkg st)"
  "IsPackage (dpkg (licenses_callback x st)) = IsPackage (dpkg st)"
  "IsModule (dpkg (licenses_callback x st)) = IsModule (dpkg st)"
  "IsPackage (dpkg (unitMeta_callback lis st)) = IsPackage (dpkg st)"
  "IsModule (dpkg (unitMeta_callback lis st)) = IsModule (dpkg st)"
  "IsPackage (dpkg (repo_callback x st)) = IsPackage (dpkg st)"
  "IsModule (dpkg (repo_callback x st)) = IsModule (dpkg st)"
  "IsPackage (dpkg (commitTime_callback now x st)) = IsPackage (dpkg st)"
  "IsModule (dpkg (commitTime_callback now x st)) = IsModule (dpkg st)"
  by (simp_all add: version_callback_def licenses_callback_def unitMeta_callback_def badges_kind
      repo_callback_def commitTime_callback_def split: sum.splits)

lemma fold_kind:
  "(\<And>x st. IsPackage (dpkg (f x st)) = IsPackage (dpkg st))
   \<Longrightarrow> (\<And>x st. IsModule (dpkg (f x st)) = IsModule (dpkg st))
   \<Longrightarrow> IsPackage (dpkg (fold f xs st)) = IsPackage (dpkg st)
       \<and> IsModule (dpkg (fold f xs st)) = IsModule (dpkg st)"
  by (induction xs arbitrary: st) simp_all

lemma late_callbacks_derrs:
  "derrs (image_callback baseURL img st) = derrs st"
  "derrs (synopsis_callback x st) = derrs st"
  by (simp_all add: image_callback_def synopsis_callback_def Let_def)

lemma fold_derrs:
  "(\<And>x st. derrs (f x st) = derrs st) \<Longrightarrow> derrs (fold f xs st) = derrs st"
  by (induction xs arbitrary: st) simp_all

lemma fold_image_callback:
  "derrs (fold (image_callback baseURL) imgs st) = derrs st
   \<and> length (Images (dpkg (fold (image_callback baseURL) imgs st)))
       = length (Images (dpkg st)) + length imgs"
  by (induction imgs arbitrary: st) (simp_all add: image_callback_def Let_def)

lemma describe_callbacks_violation:
  assumes "titleHeadings pg = [labels]" "''package'' \<notin> set labels" "''module'' \<notin> set labels"
    "\<not> IsPackage (dpkg st)" "\<not> IsModule (dpkg st)"
  shows "ErrIsPackageFalse name \<in> set (derrs (describe_callbacks legacy now baseURL name pg st))"
proof -
  let ?early = "fold (commitTime_callback now) (commitTimes pg)
                (fold repo_callback (metaRepos pg)
                   (fold unitMeta_callback (unitMetas pg)
                      (fold licenses_callback (headerLicenses pg)
                         (fold version_callback (headerVersions pg) st))))"
  have k: "IsPackage (dpkg ?early) = IsPackage (dpkg st) \<and> IsModule (dpkg ?early) = IsModule (dpkg st)"
    by (simp add: fold_kind early_callbacks_kind)
  let ?mid = "fold (titleHeading_callback name) (titleHeadings pg) ?early"
  have m: "?mid = ?early\<lparr>derrs := derrs ?early @ [ErrIsPackageFalse name]\<rparr>"
    using assms k by (simp add: titleHeading_callback_violation)
  have "derrs (describe_callbacks legacy now baseURL name pg st) = derrs ?mid"
    unfolding describe_callbacks_def
    by (cases legacy) (simp_all add: fold_derrs late_callbacks_derrs)
  with m show ?thesis by simp
qed

lemma describe_package_result:
  "describe_package legacy now baseURL visit name = (po, eo)
   \<Longrightarrow> (po = None \<longleftrightarrow> eo \<noteq> None) \<and> (\<forall>es. eo = Some es \<longrightarrow> es \<noteq> [])"
  by (auto simp: describe_package_def Let_def split: if_splits)

lemma describe_package_violation:
  assumes "visit (baseURL @ ''/'' @ name) = Page pg" "titleHeadings pg = [labels]"
    "''package'' \<notin> set labels" "''module'' \<notin> set labels"
  shows "\<exists>es. describe_package legacy now baseURL visit name = (None, Some es)
            \<and> ErrIsPackageFalse name \<in> set es"
proof -
  let ?st = "describe_callbacks legacy now baseURL name pg \<lparr>dpkg = newPackage name, derrs = []\<rparr>"
  have e: "ErrIsPackageFalse name \<in> set (derrs ?st)"
    using assms(2-4) by (intro describe_callbacks_violation) (simp_all add: newPackage_def)
  then have "length (derrs ?st) \<noteq> 0" by auto
  with assms(1) have "describe_package legacy now baseURL visit name = (None, Some (derrs ?st))"
    by (simp add: describe_package_def Let_def)
  with e show ?thesis by blast
qed

lemma examplePage_callbacks:
  "''package'' \<notin> set labels \<Longrightarrow> ''module'' \<notin> set labels \<Longrightarrow>
   describe_callbacks legacy exampleNow ''https://pkg.go.dev'' ''p'' (examplePage labels)
     \<lparr>dpkg = newPackage ''p'', derrs = []\<rparr>
   = \<lparr>dpkg = (newPackage ''p'')\<lparr>Version := ''v1.2.0'', Published := ''2024-03-01'',
         License := ''MIT'', HasValidGoModFile := True, HasRedistributableLicense := True,
         Repository := ''github.com/user/repo'',
         Images := [\<lparr>Alt = ''logo'', URL = ''https://pkg.go.dev/logo.png''\<rparr>]\<rparr>,
      derrs = [ErrIsPackageFalse ''p'']\<rparr>"
proof -
  assume l: "''package'' \<notin> set labels" "''module'' \<notin> set labels"
  have t: "trimSpace (trimPrefix ''Version: v1.2.0'' ''Version: '') = ''v1.2.0''"
    "trimSpace ''MIT'' = ''MIT''"
    "trimSpace (trim ''github.com/user/repo'' [CHR 0x5C, CHR ''n'']) = ''github.com/user/repo''"
    "trimPrefix (trimSpace ''Published: today'') ''Published: '' = ''today''"
    by (simp_all add: trimSpace_eval trimPrefix_def trim_def)
  show ?thesis
    by (cases legacy)
       (simp_all add: describe_callbacks_def examplePage_def version_callback_def
        licenses_callback_def unitMeta_callback_def repo_callback_def commitTime_callback_def
        image_callback_def Let_def t normalizeTime_exampleNow_today newPackage_def
        titleHeading_callback_violation [OF l])
qed

text \<open>
  Claim C7, as the code has it. When the scan after a title heading meets a label that it
  does not know, or runs out of siblings, with neither \<open>IsPackage\<close> nor \<open>IsModule\<close> set, it
  appends the error to \<open>errs\<close> and changes nothing else; the callbacks registered after it
  still run (the images of the readme are collected, and they leave \<open>errs\<close> alone). But
  \<open>DescribePackage\<close> never returns a record together with an error list: the record is \<open>nil\<close>
  exactly when the error is not, an error list that is returned is not empty, and a page
  whose title heading is followed by neither \<^verbatim>\<open>package\<close> nor \<^verbatim>\<open>module\<close> yields \<open>nil\<close> and a list
  that holds the error, in the current client and in the legacy one.
\<close>

theorem DescribePackage_shape_violation:
  "(''package'' \<notin> set labels \<and> ''module'' \<notin> set labels
      \<and> \<not> IsPackage (dpkg st) \<and> \<not> IsModule (dpkg st) \<longrightarrow>
      titleHeading_callback name labels st = st\<lparr>derrs := derrs st @ [ErrIsPackageFalse name]\<rparr>)
   \<and> derrs (fold (image_callback baseURL) imgs st) = derrs st
   \<and> length (Images (dpkg (fold (image_callback baseURL) imgs st)))
       = length (Images (dpkg st)) + length imgs
   \<and> (describe_package legacy now baseURL visit name = (po, eo) \<longrightarrow>
        (po = None \<longleftrightarrow> eo \<noteq> None) \<and> (\<forall>es. eo = Some es \<longrightarrow> es \<noteq> []))
   \<and> (visit (baseURL @ ''/'' @ name) = Page pg \<and> titleHeadings pg = [labels]
       \<and> ''package'' \<notin> set labels \<and> ''module'' \<notin> set labels \<longrightarrow>
        (\<exists>es. DescribePackage now baseURL visit name = (None, Some es)
              \<and> ErrIsPackageFalse name \<in> set es)
        \<and> (\<exists>es. DescribePackage_legacy now baseURL visit name = (None, Some es)
              \<and> ErrIsPackageFalse name \<in> set es))"
proof -
  have 1: "''package'' \<notin> set labels \<and> ''module'' \<notin> set labels
      \<and> \<not> IsPackage (dpkg st) \<and> \<not> IsModule (dpkg st) \<longrightarrow>
      titleHeading_callback name labels st = st\<lparr>derrs := derrs st @ [ErrIsPackageFalse name]\<rparr>"
    by (simp add: titleHeading_callback_violation)
  note 2 = fold_image_callback [of baseURL imgs st, THEN conjunct1]
  note 3 = fold_image_callback [of baseURL imgs st, THEN conjunct2]
  have 4: "describe_package legacy now baseURL visit name = (po, eo) \<longrightarrow>
        (po = None \<longleftrightarrow> eo \<noteq> None) \<and> (\<forall>es. eo = Some es \<longrightarrow> es \<noteq> [])"
    using describe_package_result by blast
  have 5: "visit (baseURL @ ''/'' @ name) = Page pg \<and> titleHeadings pg = [labels]
       \<and> ''package'' \<notin> set labels \<and> ''module'' \<notin> set labels \<longrightarrow>
        (\<exists>es. DescribePackage now baseURL visit name = (None, Some es)
              \<and> ErrIsPackageFalse name \<in> set es)
        \<and> (\<exists>es. DescribePackage_legacy now baseURL visit name = (None, Some es)
              \<and> ErrIsPackageFalse name \<in> set es)"
    unfolding DescribePackage_def DescribePackage_legacy_def
    using describe_package_violation [of visit baseURL name pg labels] by blast
  from 1 2 3 4 5 show ?thesis by (intro conjI)
qed

text \<open>A title heading followed by the labels \<^verbatim>\<open>command\<close> and \<^verbatim>\<open>Go\<close>.\<close>

theorem DescribePackage_shape_violation_witness:
  "titleHeading_callback ''p'' [''command'', ''Go''] \<lparr>dpkg = newPackage ''p'', derrs = []\<rparr>
     = \<lparr>dpkg = newPackage ''p'', derrs = [ErrIsPackageFalse ''p'']\<rparr>
   \<and> fst (describe_package False exampleNow ''https://pkg.go.dev''
        (\<lambda>url. Page (examplePage [''command'', ''Go''])) ''p'') = None
   \<and> snd (describe_package False exampleNow ''https://pkg.go.dev''
        (\<lambda>url. Page (examplePage [''command'', ''Go''])) ''p'') = Some [ErrIsPackageFalse ''p'']
   \<and> (\<exists>es. DescribePackage exampleNow ''https://pkg.go.dev''
        (\<lambda>url. Page (examplePage [''command'', ''Go''])) ''p'' = (None, Some es)
        \<and> ErrIsPackageFalse ''p'' \<in> set es)"
proof -
  let ?visit = "\<lambda>url :: string. Page (examplePage [''command'', ''Go''])"
  let ?st = "\<lparr>dpkg = newPackage ''p'', derrs = []\<rparr>"
  have l: "''package'' \<notin> set [''command'', ''Go''] \<and> ''module'' \<notin> set [''command'', ''Go'']"
    by simp
  have k: "\<not> IsPackage (dpkg ?st) \<and> \<not> IsModule (dpkg ?st)" by (simp add: newPackage_def)
  have r: "describe_package False exampleNow ''https://pkg.go.dev'' ?visit ''p''
      = (None, Some [ErrIsPackageFalse ''p''])"
    unfolding describe_package_def Let_def
    using l by (simp add: examplePage_callbacks)
  note th = DescribePackage_shape_violation [where labels = "[''command'', ''Go'']" and st = ?st
      and name = "''p''" and legacy = False and now = exampleNow
      and baseURL = "''https://pkg.go.dev''" and visit = ?visit
      and pg = "examplePage [''command'', ''Go'']" and po = None
      and eo = "Some [ErrIsPackageFalse ''p'']"]
  note c1 = th [THEN conjunct1]
  note c4 = th [THEN conjunct2, THEN conjunct2, THEN conjunct2, THEN conjunct1]
  note c5 = th [THEN conjunct2, THEN conjunct2, THEN conjunct2, THEN conjunct2]
  from c1 l k have 1: "titleHeading_callback ''p'' [''command'', ''Go''] ?st
     = \<lparr>dpkg = newPackage ''p'', derrs = [ErrIsPackageFalse ''p'']\<rparr>"
    by simp
  from c4 r have 2: "fst (describe_package False exampleNow ''https://pkg.go.dev'' ?visit ''p'') = None"
    by simp
  from r have 3: "snd (describe_package False exampleNow ''https://pkg.go.dev'' ?visit ''p'')
      = Some [ErrIsPackageFalse ''p'']" by simp
  have "titleHeadings (examplePage [''command'', ''Go'']) = [[''command'', ''Go'']]"
    by (simp add: examplePage_def)
  with c5 l have 4: "\<exists>es. DescribePackage exampleNow ''https://pkg.go.dev'' ?visit ''p'' = (None, Some es)
        \<and> ErrIsPackageFalse ''p'' \<in> set es"
    by simp
  from 1 2 3 4 show ?thesis by (intro conjI)
qed

text \<open>
  Claim C7 as it is written fails: on a page that is neither module nor package, with a
  version, a date and an image that the other callbacks have read, the record is not
  returned; the result is \<open>nil\<close> and the error list.
\<close>

theorem DescribePackage_shape_violation_counterexample:
  "DescribePackage exampleNow ''https://pkg.go.dev''
      (\<lambda>url. Page (examplePage [''standard library''])) ''p'' = (None, Some [ErrIsPackageFalse ''p''])
   \<and> DescribePackage_legacy exampleNow ''https://pkg.go.dev''
      (\<lambda>url. Page (examplePage [''standard library''])) ''p'' = (None, Some [ErrIsPackageFalse ''p''])"
proof -
  have l: "''package'' \<notin> set [''standard library'']" "''module'' \<notin> set [''standard library'']"
    by simp_all
  show ?thesis
    unfolding DescribePackage_def DescribePackage_legacy_def describe_package_def Let_def
    by (simp add: examplePage_callbacks [OF l])
qed

section \<open>Properties of the repository URL functions\<close>

text \<open>Cutting \<^verbatim>\<open>.git\<close> off the end never reaches into a leading \<^verbatim>\<open>https://\<close>.\<close>

lemma trimSuffix_keeps_https:
  "\<exists>r'. trimSuffix (''https://'' @ r) ''.git'' = ''https://'' @ r'"
proof (cases "hasSuffix (''https://'' @ r) ''.git''")
  case False
  then show ?thesis by (simp add: trimSuffix_def)
next
  case True
  then obtain q where q: "''https://'' @ r = q @ ''.git''"
    by (auto simp: hasSuffix_iff)
  then have tq: "trimSuffix (''https://'' @ r) ''.git'' = q"
    by (simp only: trimSuffix_app)
  from q obtain us where
    "(''https://'' = q @ us \<and> us @ r = ''.git'') \<or> (''https://'' @ us = q \<and> r = us @ ''.git'')"
    by (auto simp only: append_eq_append_conv2)
  then show ?thesis
  proof
    assume a: "''https://'' = q @ us \<and> us @ r = ''.git''"
    show ?thesis
    proof (cases us)
      case Nil
      with a tq show ?thesis by simp
    next
      case (Cons u us')
      with a have "u = CHR ''.''" by simp
      moreover from a Cons have "u \<in> set ''https://''"
        by (metis in_set_conv_decomp)
      ultimately show ?thesis by simp
    qed
  next
    assume "''https://'' @ us = q \<and> r = us @ ''.git''"
    then have "q = ''https://'' @ us" by blast
    with tq show ?thesis by (simp only:) blast
  qed
qed

text \<open>
  With a second scheme in front, the authority of the URL is \<^verbatim>\<open>https:\<close> (the text between
  \<open>//\<close> and the next \<open>/\<close>): the parse fails or that is the host.
\<close>

lemma url_Parse_Host_doubled:
  "url_Parse_Host (''https://https://'' @ r) = None
   \<or> url_Parse_Host (''https://https://'' @ r) = Some ''https:''"
  by (simp add: url_Parse_Host_def url_parse_def getScheme_def isAlpha_def isDigit_def Let_def
      parseAuthority_def parseHost_def validOptionalPort_def hostByteAllowed_def
      split: option.splits)

lemma identifyGitHost_doubled: "identifyGitHost (''https://https://'' @ r) = GitHostUnknown"
  using url_Parse_Host_doubled [of r] by (auto simp: identifyGitHost_def)

lemma normalizeRepoURL_https:
  "normalizeRepoURL (''https://'' @ r) = ''https://'' @ trimSuffix (''https://'' @ r) ''.git''"
  by (simp add: normalizeRepoURL_def trimSuffix_def)

text \<open>
  Claim C8. \<open>normalizeRepoURL\<close> maps the SSH form \<^verbatim>\<open>git@github.com:user/repo.git\<close> to
  \<^verbatim>\<open>https://github.com/user/repo\<close>, and the scheme-less \<^verbatim>\<open>gitlab.com/user/repo.git\<close> to
  \<^verbatim>\<open>https://gitlab.com/user/repo\<close>: the suffix is cut and the scheme put in front.
\<close>

theorem normalizeRepoURL_examples:
  "normalizeRepoURL ''git@github.com:user/repo.git'' = ''https://github.com/user/repo''
   \<and> normalizeRepoURL ''gitlab.com/user/repo.git'' = ''https://gitlab.com/user/repo''"
  by (simp add: normalizeRepoURL_def submatch_at_def hasSuffix_def trimSuffix_def)

text \<open>
  Claim C9. For every input that begins with \<^verbatim>\<open>https://\<close> (such an input never is of the
  \<^verbatim>\<open>git@\<close> form), \<open>normalizeRepoURL\<close> puts another \<^verbatim>\<open>https://\<close> in front of it, so the
  result begins with a doubled scheme; \<open>identifyGitHost\<close> classifies the result as an unknown
  host, and \<open>fetchDescription\<close> returns the empty string, whatever the page lookups would
  have found.
\<close>

theorem normalizeRepoURL_doubles_https:
  "hasPrefix repoURL ''https://'' \<Longrightarrow>
     normalizeRepoURL repoURL = ''https://'' @ trimSuffix repoURL ''.git''
     \<and> hasPrefix (normalizeRepoURL repoURL) ''https://https://''
     \<and> identifyGitHost (normalizeRepoURL repoURL) = GitHostUnknown
     \<and> fetchDescription extract repoURL = []"
proof -
  assume "hasPrefix repoURL ''https://''"
  then obtain r where r: "repoURL = ''https://'' @ r"
    by (auto simp: hasPrefix_iff)
  obtain r' where r': "trimSuffix (''https://'' @ r) ''.git'' = ''https://'' @ r'"
    using trimSuffix_keeps_https by blast
  have n: "normalizeRepoURL repoURL = ''https://https://'' @ r'"
    using r r' normalizeRepoURL_https [of r] by simp
  have 1: "normalizeRepoURL repoURL = ''https://'' @ trimSuffix repoURL ''.git''"
    using r normalizeRepoURL_https [of r] by simp
  have 2: "hasPrefix (normalizeRepoURL repoURL) ''https://https://''"
    unfolding n by simp
  have 3: "identifyGitHost (normalizeRepoURL repoURL) = GitHostUnknown"
    unfolding n by (rule identifyGitHost_doubled)
  have 4: "fetchDescription extract repoURL = []"
    using 3 by (simp add: fetchDescription_def Let_def)
  from 1 2 3 4 show ?thesis by blast
qed

theorem normalizeRepoURL_doubles_https_witness:
  "hasPrefix ''https://github.com/user/repo'' ''https://''
   \<and> normalizeRepoURL ''https://github.com/user/repo'' = ''https://https://github.com/user/repo''
   \<and> identifyGitHost (normalizeRepoURL ''https://github.com/user/repo'') = GitHostUnknown
   \<and> fetchDescription (\<lambda>h u. ''a description'') ''https://github.com/user/repo'' = []"
proof -
  have h: "hasPrefix ''https://github.com/user/repo'' ''https://''" by simp
  have t: "trimSuffix ''https://github.com/user/repo'' ''.git'' = ''https://github.com/user/repo''"
    by (simp add: trimSuffix_def hasSuffix_def)
  note th = normalizeRepoURL_doubles_https [OF h, of "\<lambda>h u. ''a description''"]
  from th t have a: "normalizeRepoURL ''https://github.com/user/repo''
      = ''https://https://github.com/user/repo''" by simp
  from th have b: "identifyGitHost (normalizeRepoURL ''https://github.com/user/repo'') = GitHostUnknown"
    by blast
  from th have c: "fetchDescription (\<lambda>h u. ''a description'') ''https://github.com/user/repo'' = []"
    by blast
  from h a b c show ?thesis by blast
qed

end
